theory Spec2Isabelle
  imports Main
begin

section \<open>Level ordering\<close>

text \<open>
  The source keeps levels as plain strings; \<open>logLevelNames\<close> is \<open>Object.keys(LogLevel)\<close>, the
  five names in declaration order. Strings are modelled as HOL strings of 8-bit characters.
\<close>

definition LogLevel_OFF :: string where "LogLevel_OFF = ''OFF''"
definition LogLevel_ERROR :: string where "LogLevel_ERROR = ''ERROR''"
definition LogLevel_WARN :: string where "LogLevel_WARN = ''WARN''"
definition LogLevel_INFO :: string where "LogLevel_INFO = ''INFO''"
definition LogLevel_DEBUG :: string where "LogLevel_DEBUG = ''DEBUG''"

definition logLevelNames :: "string list" where
  "logLevelNames = [LogLevel_OFF, LogLevel_ERROR, LogLevel_WARN, LogLevel_INFO, LogLevel_DEBUG]"

text \<open>\<open>Array.prototype.indexOf\<close>: the first index holding the value, or \<open>-1\<close>.\<close>

fun indexOf_from :: "nat \<Rightarrow> 'a list \<Rightarrow> 'a \<Rightarrow> int" where
  "indexOf_from i [] x = - 1"
| "indexOf_from i (y # ys) x = (if y = x then int i else indexOf_from (Suc i) ys x)"

definition indexOf :: "'a list \<Rightarrow> 'a \<Rightarrow> int" where
  "indexOf xs x = indexOf_from 0 xs x"

text \<open>
  \<open>String.prototype.toUpperCase\<close> on the ASCII letters; every other character is kept.
  Level strings are taken to be ASCII: the characters beyond ASCII that JavaScript maps to
  other characters are outside the model.
\<close>

definition toUpperChar :: "char \<Rightarrow> char" where
  "toUpperChar c =
     (case map_of (zip ''abcdefghijklmnopqrstuvwxyz'' ''ABCDEFGHIJKLMNOPQRSTUVWXYZ'') c of
        None \<Rightarrow> c
      | Some u \<Rightarrow> u)"

definition toUpperCase :: "string \<Rightarrow> string" where
  "toUpperCase s = map toUpperChar s"

text \<open>
  A thrown exception is a value: \<open>Error msg\<close> for \<open>throw new Error(msg)\<close> and
  \<open>TypeError msg\<close> for \<open>throw new TypeError(msg)\<close>.
\<close>

datatype error = Error string | TypeError string

definition loglevelMessage :: "string \<Rightarrow> string" where
  "loglevelMessage loglevel =
     ''Value '' @ [CHR 0x27] @ loglevel @ [CHR 0x27]
       @ '' for argument loglevel not supported, must be one of: ''
       @ ''['' @ [CHR 0x22] @ ''OFF'' @ [CHR 0x22] @ '','' @ [CHR 0x22] @ ''ERROR'' @ [CHR 0x22]
       @ '','' @ [CHR 0x22] @ ''WARN'' @ [CHR 0x22] @ '','' @ [CHR 0x22] @ ''INFO'' @ [CHR 0x22]
       @ '','' @ [CHR 0x22] @ ''DEBUG'' @ [CHR 0x22] @ ''].''"

definition checkLoglevel :: "string \<Rightarrow> error + unit" where
  "checkLoglevel loglevel =
     (if indexOf logLevelNames loglevel = - 1 then Inl (Error (loglevelMessage loglevel))
      else Inr ())"

definition isFirstLoglevelGreaterEqualSecond :: "string \<Rightarrow> string \<Rightarrow> error + bool" where
  "isFirstLoglevelGreaterEqualSecond firstLoglevel secondLoglevel =
     (let firstLoglevel = toUpperCase firstLoglevel in
      case checkLoglevel firstLoglevel of
        Inl e \<Rightarrow> Inl e
      | Inr _ \<Rightarrow>
          Inr (indexOf logLevelNames firstLoglevel \<ge> indexOf logLevelNames secondLoglevel))"

subsection \<open>The ordering as the specification words it\<close>

text \<open>
  The specification's ordered enumeration \<open>OFF < ERROR < WARN < INFO < DEBUG\<close>, with the position
  of each member and the token that names it. These definitions follow the specification, not
  the code; the code is compared with them below.
\<close>

datatype level = OFF | ERROR | WARN | INFO | DEBUG

fun position :: "level \<Rightarrow> nat" where
  "position OFF = 0"
| "position ERROR = 1"
| "position WARN = 2"
| "position INFO = 3"
| "position DEBUG = 4"

fun token :: "level \<Rightarrow> string" where
  "token OFF = ''OFF''"
| "token ERROR = ''ERROR''"
| "token WARN = ''WARN''"
| "token INFO = ''INFO''"
| "token DEBUG = ''DEBUG''"

definition level_of :: "string \<Rightarrow> level option" where
  "level_of s =
     (if s = ''OFF'' then Some OFF else if s = ''ERROR'' then Some ERROR
      else if s = ''WARN'' then Some WARN else if s = ''INFO'' then Some INFO
      else if s = ''DEBUG'' then Some DEBUG else None)"

section \<open>Values, messages and sinks\<close>

text \<open>
  The arguments typed \<open>any\<close> in the source (\<open>format\<close>, the optional parameters, and the values
  that reach the \<open>tags\<close> parameter at run time) are modelled by the values the code
  distinguishes: \<open>undefined\<close>, a string, an array of strings, and an \<open>Error\<close> object, given by
  its string rendering and its \<open>stack\<close> property.
\<close>

datatype jsval =
    JUndefined
  | JString string
  | JStrings "string list"
  | JError string "string option"

text \<open>\<open>xs.concat(v)\<close>: an array argument is spread, any other value is appended as one element.\<close>

definition concat_value :: "jsval list \<Rightarrow> jsval \<Rightarrow> jsval list" where
  "concat_value xs v = (case v of JStrings ss \<Rightarrow> xs @ map JString ss | _ \<Rightarrow> xs @ [v])"

text \<open>
  A message. In the variant with several log functions the first field is \<open>date\<close>, a \<open>Date\<close>;
  a \<open>Date\<close> is modelled by its \<open>toISOString()\<close>, so both variants share this record.
\<close>

record Message =
  isoDate :: string
  level :: string
  tags :: "jsval list"
  "text" :: string
  stack :: "string option"

text \<open>
  A writable stream is an object in a store, named by a handle; two destinations are the same
  object (\<open>===\<close>) when their handles are equal. Of a stream the model keeps its \<open>isTTY\<close>
  property (\<open>None\<close> when the object has none), whether it is an instance of
  \<open>stream.Writable\<close> or \<open>stream.Transform\<close>, and the chunks written to it so far. A write
  appends its chunk and calls back; completion callbacks are taken to arrive, so that the
  promise of a log function is modelled by its final state.
\<close>

type_synonym handle = nat

record writable =
  isTTY :: "bool option"
  instanceofWritable :: bool
  written :: "string list"

type_synonym store = "handle \<Rightarrow> writable"

definition stream_write :: "handle \<Rightarrow> string \<Rightarrow> store \<Rightarrow> store" where
  "stream_write h chunk s = s(h := (s h)\<lparr>written := written (s h) @ [chunk]\<rparr>)"

definition process_stdout :: handle where "process_stdout = 1"
definition process_stderr :: handle where "process_stderr = 2"

text \<open>\<open>xs[i]\<close>: \<open>undefined\<close> (here \<open>None\<close>) beyond the end of the array.\<close>

definition at :: "'a list \<Rightarrow> nat \<Rightarrow> 'a option" where
  "at xs i = (if i < length xs then Some (xs ! i) else None)"

datatype completion = Resolved | Rejected error

type_synonym LogFunction = "Message \<Rightarrow> bool \<Rightarrow> handle list \<Rightarrow> store \<Rightarrow> completion \<times> store"

text \<open>
  What the code takes from its platform: \<open>util.format\<close>, the ISO string of \<open>new Date()\<close> at
  the call, \<open>os.EOL\<close> and the file name of the caller found on the call stack.
\<close>

record env =
  util_format :: "jsval \<Rightarrow> jsval list \<Rightarrow> string"
  now :: string
  EOL :: string
  getCallerFilename :: string

subsection \<open>\<open>JSON.stringify\<close> of a message\<close>

definition hexDigit :: "nat \<Rightarrow> char" where
  "hexDigit n = ''0123456789abcdef'' ! (n mod 16)"

text \<open>
  The quoting of one character of a string: the two-character escapes, \<open>\u00XX\<close> for the other
  control characters, and the character itself otherwise.
\<close>

definition quoteChar :: "char \<Rightarrow> string" where
  "quoteChar c =
     (if c = CHR 0x22 then [CHR 0x5C, CHR 0x22]
      else if c = CHR 0x5C then [CHR 0x5C, CHR 0x5C]
      else if c = CHR 0x08 then [CHR 0x5C, CHR ''b'']
      else if c = CHR 0x0C then [CHR 0x5C, CHR ''f'']
      else if c = CHR 0x0A then [CHR 0x5C, CHR ''n'']
      else if c = CHR 0x0D then [CHR 0x5C, CHR ''r'']
      else if c = CHR 0x09 then [CHR 0x5C, CHR ''t'']
      else if (of_char c :: nat) < 32
        then [CHR 0x5C, CHR ''u'', CHR ''0'', CHR ''0'',
              hexDigit ((of_char c :: nat) div 16), hexDigit (of_char c :: nat)]
      else [c])"

definition JSON_quote :: "string \<Rightarrow> string" where
  "JSON_quote s = [CHR 0x22] @ concat (map quoteChar s) @ [CHR 0x22]"

fun join :: "string \<Rightarrow> string list \<Rightarrow> string" where
  "join sep [] = []"
| "join sep [x] = x"
| "join sep (x # y # ys) = x @ sep @ join sep (y # ys)"

text \<open>
  An element of the \<open>tags\<close> array: \<open>undefined\<close> is written \<open>null\<close>, an \<open>Error\<close> object (no
  enumerable property of its own) \<open>{}\<close>.
\<close>

definition JSON_stringify_value :: "jsval \<Rightarrow> string" where
  "JSON_stringify_value v =
     (case v of
        JUndefined \<Rightarrow> ''null''
      | JString s \<Rightarrow> JSON_quote s
      | JStrings ss \<Rightarrow> ''['' @ join '','' (map JSON_quote ss) @ '']''
      | JError _ _ \<Rightarrow> ''{}'')"

text \<open>
  \<open>JSON.stringify(message)\<close>: the properties in the order of their creation, \<open>stack\<close> only when
  it holds a string.
\<close>

definition JSON_stringify :: "Message \<Rightarrow> string" where
  "JSON_stringify message =
     ''{'' @ JSON_quote ''isoDate'' @ '':'' @ JSON_quote (isoDate message)
       @ '','' @ JSON_quote ''level'' @ '':'' @ JSON_quote (Message.level message)
       @ '','' @ JSON_quote ''tags'' @ '':''
       @ ''['' @ join '','' (map JSON_stringify_value (Message.tags message)) @ '']''
       @ '','' @ JSON_quote ''text'' @ '':'' @ JSON_quote (text message)
       @ (case stack message of
            None \<Rightarrow> []
          | Some st \<Rightarrow> '','' @ JSON_quote ''stack'' @ '':'' @ JSON_quote st)
       @ ''}''"

section \<open>The logger with one log function (\<open>src/index.ts\<close>)\<close>

definition isTty :: "store \<Rightarrow> handle option \<Rightarrow> bool" where
  "isTty s writableStream =
     (case writableStream of None \<Rightarrow> False | Some h \<Rightarrow> isTTY (s h) = Some True)"

text \<open>
  The body of the promise runs at once; an exception in it rejects the promise. \<open>streamB\<close> is
  written in the callback of the write to \<open>streamA\<close>.
\<close>

definition allDest0WarnDest1 :: "env \<Rightarrow> LogFunction" where
  "allDest0WarnDest1 env message shouldBeLogged destinations s =
     (if \<not> shouldBeLogged then (Resolved, s)
      else
        case isFirstLoglevelGreaterEqualSecond (Message.level message) LogLevel_INFO of
          Inl e \<Rightarrow> (Rejected e, s)
        | Inr ge \<Rightarrow>
            let writeToDest1 = (\<not> ge \<and> at destinations 1 \<noteq> None
                                \<and> at destinations 0 \<noteq> at destinations 1);
                isBothTty = (isTty s (at destinations 0) \<and> isTty s (at destinations 1));
                writeToDest0 = (\<not> (writeToDest1 \<and> isBothTty));
                streamA = (if writeToDest1 then at destinations 1 else at destinations 0);
                streamB = (if writeToDest1 \<and> writeToDest0 then at destinations 0 else None);
                messageStr = JSON_stringify message @ EOL env
            in case streamA of
                 None \<Rightarrow> (Rejected (TypeError ''Cannot read property write of undefined''), s)
               | Some a \<Rightarrow>
                   (case streamB of
                      Some b \<Rightarrow> (Resolved, stream_write b messageStr (stream_write a messageStr s))
                    | None \<Rightarrow> (Resolved, stream_write a messageStr s)))"

text \<open>The exported map \<open>logFunctions\<close>, as the module's initialisation leaves it.\<close>

definition logFunctions_map :: "env \<Rightarrow> string \<rightharpoonup> LogFunction" where
  "logFunctions_map env = [''allDest0WarnDest1'' \<mapsto> allDest0WarnDest1 env]"

text \<open>
  An element of the \<open>destinations\<close> option is a string, a stream object, or something else (kept
  with its \<open>typeof\<close>); the \<open>logFunction\<close> option is a string, a function, or something else.
\<close>

datatype destination = DestString string | DestStream handle | DestOther string

datatype logFunctionArg = LfString string | LfFunction LogFunction | LfOther string

record LoggerOptions =
  level :: "string option"
  destinations :: "destination list option"
  logFunction :: "logFunctionArg option"

record Logger =
  level :: string
  tags :: "string list"
  destinations :: "handle list"
  logFunction :: LogFunction

text \<open>
  The state outside a logger: the store of streams, the next unused handle (for the streams
  that \<open>fs.createWriteStream\<close> creates) and the static \<open>Logger.instance\<close>.
\<close>

record 'lg world =
  streams :: store
  nextHandle :: handle
  Logger_instance :: "'lg option"

definition defaultOptions :: LoggerOptions where
  "defaultOptions =
     \<lparr>LoggerOptions.level = Some LogLevel_DEBUG,
      LoggerOptions.destinations = Some [DestStream process_stdout, DestStream process_stderr],
      LoggerOptions.logFunction = Some (LfString ''allDest0WarnDest1'')\<rparr>"

definition createWriteStream :: "string \<Rightarrow> 'lg world \<Rightarrow> handle \<times> 'lg world" where
  "createWriteStream path w =
     (nextHandle w,
      w\<lparr>streams := (streams w)(nextHandle w :=
            \<lparr>isTTY = None, instanceofWritable = True, written = []\<rparr>),
        nextHandle := Suc (nextHandle w)\<rparr>)"

definition unexpectedDestination :: "string \<Rightarrow> error" where
  "unexpectedDestination ty =
     TypeError (''One of the elements of argument '' @ [CHR 0x27] @ ''destinations'' @ [CHR 0x27]
       @ '' has unexpected type '' @ [CHR 0x27] @ ty @ [CHR 0x27] @ ''.'')"

text \<open>The loop of \<open>setDestinations\<close>; the second argument is \<open>this.destinations\<close> so far.\<close>

fun setDestinations ::
  "destination list \<Rightarrow> handle list \<Rightarrow> 'lg world \<Rightarrow> error + (handle list \<times> 'lg world)" where
  "setDestinations [] acc w = Inr (acc, w)"
| "setDestinations (DestString dest # rest) acc w =
     (if dest = ''stdout'' then setDestinations rest (acc @ [process_stdout]) w
      else if dest = ''stderr'' then setDestinations rest (acc @ [process_stderr]) w
      else case createWriteStream dest w of (s, w') \<Rightarrow> setDestinations rest (acc @ [s]) w')"
| "setDestinations (DestStream dest # rest) acc w =
     (if instanceofWritable (streams w dest) then setDestinations rest (acc @ [dest]) w
      else Inl (unexpectedDestination ''object''))"
| "setDestinations (DestOther ty # rest) acc w = Inl (unexpectedDestination ty)"

definition setLogFunction ::
  "(string \<rightharpoonup> LogFunction) \<Rightarrow> logFunctionArg \<Rightarrow> error + LogFunction" where
  "setLogFunction registry logFunction' =
     (case logFunction' of
        LfString name \<Rightarrow>
          (case registry name of
             Some f \<Rightarrow> Inr f
           | None \<Rightarrow>
               Inl (Error (''The logFunction with name '' @ [CHR 0x27] @ name @ [CHR 0x27]
                             @ '' is not known.'')))
      | LfFunction f \<Rightarrow> Inr f
      | LfOther ty \<Rightarrow>
          Inl (TypeError (''The argument '' @ [CHR 0x27] @ ''logFunction'' @ [CHR 0x27]
                            @ '' has unexpected type '' @ [CHR 0x27] @ ty @ [CHR 0x27] @ ''.'')))"

text \<open>
  The constructor. The first argument is the current value of the exported map
  \<open>logFunctions\<close>. An option left out takes its default. When the constructor throws, the
  model gives the exception only: \<open>Logger.instance\<close> is not assigned, and a stream already
  created for a file path belongs to no logger.
\<close>

definition Logger_new ::
  "(string \<rightharpoonup> LogFunction) \<Rightarrow> LoggerOptions \<Rightarrow> string list \<Rightarrow> Logger world
     \<Rightarrow> error + (Logger \<times> Logger world)" where
  "Logger_new registry options tags' w =
     (let level' = (case LoggerOptions.level options of
                     None \<Rightarrow> the (LoggerOptions.level defaultOptions) | Some l \<Rightarrow> l);
          destinations' = (case LoggerOptions.destinations options of
                     None \<Rightarrow> the (LoggerOptions.destinations defaultOptions) | Some d \<Rightarrow> d);
          logFunction' = (case LoggerOptions.logFunction options of
                     None \<Rightarrow> the (LoggerOptions.logFunction defaultOptions) | Some f \<Rightarrow> f)
      in case checkLoglevel level' of
           Inl e \<Rightarrow> Inl e
         | Inr _ \<Rightarrow>
             (case setDestinations destinations' [] w of
                Inl e \<Rightarrow> Inl e
              | Inr (dests, w') \<Rightarrow>
                  (case setLogFunction registry logFunction' of
                     Inl e \<Rightarrow> Inl e
                   | Inr f \<Rightarrow>
                       let this = \<lparr>Logger.level = level', Logger.tags = tags',
                                   Logger.destinations = dests, Logger.logFunction = f\<rparr>
                       in Inr (this, w'\<lparr>Logger_instance := Some this\<rparr>))))"

text \<open>
  \<open>getOptions\<close> returns the options together with a copy of the tags; the constructor reads
  the options only.
\<close>

definition getOptions :: "Logger \<Rightarrow> LoggerOptions \<times> string list" where
  "getOptions this =
     (\<lparr>LoggerOptions.level = Some (Logger.level this),
       LoggerOptions.destinations = Some (map DestStream (Logger.destinations this)),
       LoggerOptions.logFunction = Some (LfFunction (Logger.logFunction this))\<rparr>,
      Logger.tags this)"

text \<open>
  \<open>createFromConfigFile\<close> takes the outcome of \<open>parseConfigSync(configFilePath)\<close> as an
  argument; the file is read only when no instance exists.
\<close>

definition createFromConfigFile ::
  "env \<Rightarrow> (string \<rightharpoonup> LogFunction) \<Rightarrow> error + LoggerOptions \<Rightarrow> string list \<Rightarrow> Logger world
     \<Rightarrow> error + (Logger \<times> Logger world)" where
  "createFromConfigFile env registry parsed tags' w =
     (let tagsWithCaller = [getCallerFilename env] @ tags'
      in case Logger_instance w of
           Some inst \<Rightarrow> Logger_new registry (fst (getOptions inst)) tagsWithCaller w
         | None \<Rightarrow>
             (case parsed of
                Inl e \<Rightarrow> Inl e
              | Inr options \<Rightarrow> Logger_new registry options tagsWithCaller w))"

definition createFromArguments ::
  "env \<Rightarrow> (string \<rightharpoonup> LogFunction) \<Rightarrow> LoggerOptions \<Rightarrow> string list \<Rightarrow> Logger world
     \<Rightarrow> error + (Logger \<times> Logger world)" where
  "createFromArguments env registry options tags' w =
     (let tagsWithCaller = [getCallerFilename env] @ tags'
      in case Logger_instance w of
           Some inst \<Rightarrow> Logger_new registry (fst (getOptions inst)) tagsWithCaller w
         | None \<Rightarrow>
             Logger_new registry
               \<lparr>LoggerOptions.level = LoggerOptions.level options,
                LoggerOptions.destinations = LoggerOptions.destinations options,
                LoggerOptions.logFunction = LoggerOptions.logFunction options\<rparr>
               tagsWithCaller w)"

subsection \<open>Dispatch\<close>

text \<open>
  The locals \<open>shouldBeLogged\<close> and \<open>message\<close> of \<open>doLog\<close>, from the logger's fields and the
  arguments; both variants of \<open>doLog\<close> compute them with the same text. The assertion that
  \<open>optionalParams\<close> is an array holds by the type of the argument. An exception of the level
  comparison leaves \<open>doLog\<close> before any log function is called.
\<close>

definition doLog_shouldBeLogged :: "string \<Rightarrow> string \<Rightarrow> jsval \<Rightarrow> error + bool" where
  "doLog_shouldBeLogged thisLevel level' tags' =
     (case isFirstLoglevelGreaterEqualSecond thisLevel level' of
        Inl e \<Rightarrow> Inl e
      | Inr ge \<Rightarrow> Inr (ge \<or> indexOf (concat_value [] tags') (JString ''always'') > - 1))"

definition doLog_message ::
  "env \<Rightarrow> string list \<Rightarrow> string \<Rightarrow> jsval \<Rightarrow> jsval \<Rightarrow> jsval list \<Rightarrow> Message" where
  "doLog_message env thisTags level' tags' format optionalParams =
     (let messageText = (if length optionalParams > 0 then util_format env format optionalParams
                         else util_format env format [])
      in \<lparr>isoDate = now env,
          Message.level = level',
          Message.tags = concat_value (map JString thisTags) tags',
          text = messageText,
          stack = (case format of JError _ st \<Rightarrow> st | _ \<Rightarrow> None)\<rparr>)"

definition doLog ::
  "env \<Rightarrow> Logger \<Rightarrow> string \<Rightarrow> jsval \<Rightarrow> jsval \<Rightarrow> jsval list \<Rightarrow> store
     \<Rightarrow> error + (completion \<times> store)" where
  "doLog env this level' tags' format optionalParams s =
     (case doLog_shouldBeLogged (Logger.level this) level' tags' of
        Inl e \<Rightarrow> Inl e
      | Inr shouldBeLogged \<Rightarrow>
          Inr (Logger.logFunction this
                 (doLog_message env (Logger.tags this) level' tags' format optionalParams)
                 shouldBeLogged (Logger.destinations this) s))"

text \<open>
  The methods for each level. The method \<open>error\<close> is \<open>error_log\<close> here, \<open>error\<close> being the
  type of exceptions.
\<close>

definition error_log where "error_log env this format optionalParams =
  doLog env this LogLevel_ERROR (JStrings []) format optionalParams"

definition error2 where "error2 env this tags' format optionalParams =
  doLog env this LogLevel_ERROR tags' format optionalParams"

definition warn where "warn env this format optionalParams =
  doLog env this LogLevel_WARN (JStrings []) format optionalParams"

definition warn2 where "warn2 env this tags' format optionalParams =
  doLog env this LogLevel_WARN tags' format optionalParams"

definition info where "info env this format optionalParams =
  doLog env this LogLevel_INFO (JStrings []) format optionalParams"

definition info2 where "info2 env this tags' format optionalParams =
  doLog env this LogLevel_INFO tags' format optionalParams"

definition debug where "debug env this format optionalParams =
  doLog env this LogLevel_DEBUG (JStrings []) format optionalParams"

definition debug2 where "debug2 env this tags' format optionalParams =
  doLog env this LogLevel_DEBUG tags' format optionalParams"

text \<open>
  The test \<open>typeof arg1 === "string" && logLevelNames.indexOf(arg1) > -1\<close> of \<open>log\<close> and
  \<open>log2\<close>, giving the level when it holds.
\<close>

definition levelArgument :: "jsval \<Rightarrow> string option" where
  "levelArgument arg1 =
     (case arg1 of
        JString a \<Rightarrow> if indexOf logLevelNames a > - 1 then Some a else None
      | _ \<Rightarrow> None)"

definition log ::
  "env \<Rightarrow> Logger \<Rightarrow> jsval \<Rightarrow> jsval \<Rightarrow> jsval list \<Rightarrow> store \<Rightarrow> error + (completion \<times> store)" where
  "log env this arg1 arg2 arg3 s =
     (case levelArgument arg1 of
        Some level' \<Rightarrow> doLog env this level' (JStrings []) arg2 arg3 s
      | None \<Rightarrow>
          let formatArgs = (if arg2 \<noteq> JUndefined then [arg2] @ arg3 else arg3)
          in doLog env this LogLevel_INFO (JStrings []) arg1 formatArgs s)"

definition log2 ::
  "env \<Rightarrow> Logger \<Rightarrow> jsval \<Rightarrow> jsval \<Rightarrow> jsval \<Rightarrow> jsval list \<Rightarrow> store
     \<Rightarrow> error + (completion \<times> store)" where
  "log2 env this arg1 arg2 arg3 arg4 s =
     (case levelArgument arg1 of
        Some level' \<Rightarrow> doLog env this level' arg2 arg3 arg4 s
      | None \<Rightarrow>
          let formatArgs = (if arg3 \<noteq> JUndefined then [arg3] @ arg4 else arg4)
          in doLog env this LogLevel_INFO arg1 arg2 formatArgs s)"

definition isErrorOrVerboser :: "Logger \<Rightarrow> error + bool" where
  "isErrorOrVerboser this = isFirstLoglevelGreaterEqualSecond (Logger.level this) LogLevel_ERROR"

definition isWarnOrVerboser :: "Logger \<Rightarrow> error + bool" where
  "isWarnOrVerboser this = isFirstLoglevelGreaterEqualSecond (Logger.level this) LogLevel_WARN"

definition isInfoOrVerboser :: "Logger \<Rightarrow> error + bool" where
  "isInfoOrVerboser this = isFirstLoglevelGreaterEqualSecond (Logger.level this) LogLevel_INFO"

definition isDebugOrVerboser :: "Logger \<Rightarrow> error + bool" where
  "isDebugOrVerboser this = isFirstLoglevelGreaterEqualSecond (Logger.level this) LogLevel_DEBUG"

section \<open>The logger with several log functions\<close>

text \<open>
  The second variant of the module in the repository: the options carry a list
  \<open>logFunctions\<close>, the built-in log functions are \<open>LogFunction.defaultText\<close> and
  \<open>LogFunction.defaultJson\<close>, and \<open>isTty\<close> tests for the property with \<open>in\<close>. Level
  comparison, \<open>log\<close>, \<open>log2\<close> and the creation functions have the same text as above. Names
  that both variants use carry the suffix \<open>_fns\<close> here.
\<close>

text \<open>
  \<open>"isTTY" in writableStream\<close>; the operator throws on \<open>undefined\<close>. A stream whose
  \<open>isTTY\<close> property is present counts as a terminal here whatever the property holds.
\<close>

definition isTty_fns :: "store \<Rightarrow> handle option \<Rightarrow> error + bool" where
  "isTty_fns s writableStream =
     (case writableStream of
        None \<Rightarrow> Inl (TypeError ''Cannot use in operator to search for isTTY in undefined'')
      | Some h \<Rightarrow> Inr (isTTY (s h) \<noteq> None))"

definition writeToDefaultDestination ::
  "string \<Rightarrow> string \<Rightarrow> bool \<Rightarrow> handle list \<Rightarrow> store \<Rightarrow> completion \<times> store" where
  "writeToDefaultDestination messageText level' shouldBeLogged destinations' s =
     (if \<not> shouldBeLogged then (Resolved, s)
      else
        case isFirstLoglevelGreaterEqualSecond level' LogLevel_INFO of
          Inl e \<Rightarrow> (Rejected e, s)
        | Inr ge \<Rightarrow>
            let writeToDest1 = (\<not> ge \<and> at destinations' 1 \<noteq> None
                                \<and> at destinations' 0 \<noteq> at destinations' 1)
            in case (case isTty_fns s (at destinations' 0) of
                       Inl e \<Rightarrow> Inl e
                     | Inr tty0 \<Rightarrow> if tty0 then isTty_fns s (at destinations' 1) else Inr False) of
                 Inl e \<Rightarrow> (Rejected e, s)
               | Inr isBothTty \<Rightarrow>
                   let writeToDest0 = (\<not> (writeToDest1 \<and> isBothTty));
                       streamA = (if writeToDest1 then at destinations' 1 else at destinations' 0);
                       streamB = (if writeToDest1 \<and> writeToDest0 then at destinations' 0 else None)
                   in case streamA of
                        None \<Rightarrow> (Rejected (TypeError ''Cannot read property write of undefined''), s)
                      | Some a \<Rightarrow>
                          (case streamB of
                             Some b \<Rightarrow>
                               (Resolved, stream_write b messageText (stream_write a messageText s))
                           | None \<Rightarrow> (Resolved, stream_write a messageText s)))"

text \<open>
  An element of \<open>message.tags\<close> under \<open>join\<close>: \<open>undefined\<close> gives the empty string, an array
  its elements joined by commas.
\<close>

definition join_element :: "jsval \<Rightarrow> string" where
  "join_element v =
     (case v of
        JUndefined \<Rightarrow> []
      | JString s \<Rightarrow> s
      | JStrings ss \<Rightarrow> join '','' ss
      | JError rendering _ \<Rightarrow> rendering)"

text \<open>The local \<open>messageText\<close> of \<open>defaultText\<close> and of \<open>defaultJson\<close>.\<close>

definition defaultText_messageText :: "env \<Rightarrow> Message \<Rightarrow> string" where
  "defaultText_messageText env message =
     (let isoDate' = isoDate message;
          level' = take 5 (Message.level message @ ''     '');
          tags' = join '', '' (map join_element (Message.tags message));
          text' = (case stack message of
                     Some st \<Rightarrow> if st \<noteq> [] then text message @ '' STACK: '' @ st else text message
                   | None \<Rightarrow> text message)
      in isoDate' @ '' '' @ level' @ '' ['' @ tags' @ ''] - '' @ text' @ EOL env)"

definition defaultJson_messageText :: "env \<Rightarrow> Message \<Rightarrow> string" where
  "defaultJson_messageText env message = JSON_stringify message @ EOL env"

definition defaultText :: "env \<Rightarrow> LogFunction" where
  "defaultText env message shouldBeLogged destinations' s =
     writeToDefaultDestination (defaultText_messageText env message) (Message.level message)
       shouldBeLogged destinations' s"

definition defaultJson :: "env \<Rightarrow> LogFunction" where
  "defaultJson env message shouldBeLogged destinations' s =
     writeToDefaultDestination (defaultJson_messageText env message) (Message.level message)
       shouldBeLogged destinations' s"

record LoggerOptions_fns =
  level :: "string option"
  destinations :: "destination list option"
  logFunctions :: "logFunctionArg list option"

record Logger_fns =
  level :: string
  tags :: "string list"
  destinations :: "handle list"
  logFunctions :: "LogFunction list"

definition defaultOptions_fns :: LoggerOptions_fns where
  "defaultOptions_fns =
     \<lparr>LoggerOptions_fns.level = Some LogLevel_DEBUG,
      LoggerOptions_fns.destinations = Some [DestStream process_stdout, DestStream process_stderr],
      LoggerOptions_fns.logFunctions = Some [LfString ''defaultText'']\<rparr>"

text \<open>
  Loading a custom log function: \<open>appRoot\<close> and \<open>require\<close> come from the platform. A module
  is the map from its export names to the functions it exports.
\<close>

record loader =
  appRoot :: string
  require :: "string \<Rightarrow> error + (string \<rightharpoonup> LogFunction)"

definition isWordChar :: "char \<Rightarrow> bool" where
  "isWordChar c \<longleftrightarrow>
     c \<in> set ''ABCDEFGHIJKLMNOPQRSTUVWXYZabcdefghijklmnopqrstuvwxyz0123456789_''"

text \<open>\<open>modulePath.replace(/\$baseDir\b/, appRoot)\<close>: the first match only.\<close>

fun replace_baseDir :: "string \<Rightarrow> string \<Rightarrow> string" where
  "replace_baseDir root [] = []"
| "replace_baseDir root (c # cs) =
     (if take 8 (c # cs) = ''$baseDir''
         \<and> (case drop 8 (c # cs) of [] \<Rightarrow> True | d # _ \<Rightarrow> \<not> isWordChar d)
      then root @ drop 8 (c # cs)
      else c # replace_baseDir root cs)"

definition tryParseCustomLogFnPath :: "loader \<Rightarrow> string \<Rightarrow> error + LogFunction option" where
  "tryParseCustomLogFnPath ld customLogFnPath =
     (if indexOf customLogFnPath (CHR '':'') \<noteq> - 1 then
        let modulePath = takeWhile (\<lambda>c. c \<noteq> CHR '':'') customLogFnPath;
            fnName = takeWhile (\<lambda>c. c \<noteq> CHR '':'')
                       (tl (dropWhile (\<lambda>c. c \<noteq> CHR '':'') customLogFnPath));
            modulePath2 = replace_baseDir (appRoot ld) modulePath
        in case require ld modulePath2 of
             Inl e \<Rightarrow> Inl e
           | Inr logFnModule \<Rightarrow>
               (case logFnModule fnName of
                  Some f \<Rightarrow> Inr (Some f)
                | None \<Rightarrow>
                    Inl (Error (''Error loading log function '' @ [CHR 0x27] @ fnName @ [CHR 0x27]
                                  @ '' from module path '' @ [CHR 0x27] @ modulePath2
                                  @ [CHR 0x27] @ ''.'')))
      else Inr None)"

definition invalidLogFunction :: "string \<Rightarrow> error" where
  "invalidLogFunction name =
     Error (''LogFunction value '' @ [CHR 0x27] @ name @ [CHR 0x27]
       @ '' is invalid. Must be either '' @ [CHR 0x27] @ ''defaultText'' @ [CHR 0x27] @ '' or ''
       @ [CHR 0x27] @ ''defaultJson'' @ [CHR 0x27] @ '' or in the format '' @ [CHR 0x27]
       @ ''$baseDir/lib/log-helper-module.js:yourLogFunction'' @ [CHR 0x27] @ ''.'')"

text \<open>
  The loop of \<open>setLogFunctions\<close>; the last argument is \<open>this.logFunctions\<close> so far. The branch
  for the name \<open>defaultJson\<close> pushes \<open>LogFunction.defaultText\<close>, as the source does.
\<close>

fun setLogFunctions ::
  "env \<Rightarrow> loader \<Rightarrow> logFunctionArg list \<Rightarrow> LogFunction list \<Rightarrow> error + LogFunction list" where
  "setLogFunctions env ld [] acc = Inr acc"
| "setLogFunctions env ld (LfString name # rest) acc =
     (if name = ''defaultText'' then setLogFunctions env ld rest (acc @ [defaultText env])
      else if name = ''defaultJson'' then setLogFunctions env ld rest (acc @ [defaultText env])
      else
        case tryParseCustomLogFnPath ld name of
          Inl e \<Rightarrow> Inl e
        | Inr (Some customLogFn) \<Rightarrow> setLogFunctions env ld rest (acc @ [customLogFn])
        | Inr None \<Rightarrow> Inl (invalidLogFunction name))"
| "setLogFunctions env ld (LfFunction f # rest) acc = setLogFunctions env ld rest (acc @ [f])"
| "setLogFunctions env ld (LfOther ty # rest) acc =
     Inl (TypeError (''The argument '' @ [CHR 0x27] @ ''logFunction'' @ [CHR 0x27]
                       @ '' has unexpected type '' @ [CHR 0x27] @ ty @ [CHR 0x27] @ ''.''))"

text \<open>\<open>setDestinations\<close> of this variant accepts every object that has a \<open>write\<close> property.\<close>

fun setDestinations_fns ::
  "destination list \<Rightarrow> handle list \<Rightarrow> 'lg world \<Rightarrow> error + (handle list \<times> 'lg world)" where
  "setDestinations_fns [] acc w = Inr (acc, w)"
| "setDestinations_fns (DestString dest # rest) acc w =
     (if dest = ''stdout'' then setDestinations_fns rest (acc @ [process_stdout]) w
      else if dest = ''stderr'' then setDestinations_fns rest (acc @ [process_stderr]) w
      else case createWriteStream dest w of (s, w') \<Rightarrow> setDestinations_fns rest (acc @ [s]) w')"
| "setDestinations_fns (DestStream dest # rest) acc w = setDestinations_fns rest (acc @ [dest]) w"
| "setDestinations_fns (DestOther ty # rest) acc w = Inl (unexpectedDestination ty)"

definition Logger_fns_new ::
  "env \<Rightarrow> loader \<Rightarrow> LoggerOptions_fns \<Rightarrow> string list \<Rightarrow> Logger_fns world
     \<Rightarrow> error + (Logger_fns \<times> Logger_fns world)" where
  "Logger_fns_new env ld options tags' w =
     (let level' = (case LoggerOptions_fns.level options of
                      None \<Rightarrow> the (LoggerOptions_fns.level defaultOptions_fns) | Some l \<Rightarrow> l);
          destinations' = (case LoggerOptions_fns.destinations options of
                      None \<Rightarrow> the (LoggerOptions_fns.destinations defaultOptions_fns)
                    | Some d \<Rightarrow> d);
          logFunctions' = (case LoggerOptions_fns.logFunctions options of
                      None \<Rightarrow> the (LoggerOptions_fns.logFunctions defaultOptions_fns)
                    | Some f \<Rightarrow> f)
      in case checkLoglevel level' of
           Inl e \<Rightarrow> Inl e
         | Inr _ \<Rightarrow>
             (case setDestinations_fns destinations' [] w of
                Inl e \<Rightarrow> Inl e
              | Inr (dests, w') \<Rightarrow>
                  (case setLogFunctions env ld logFunctions' [] of
                     Inl e \<Rightarrow> Inl e
                   | Inr fs \<Rightarrow>
                       let this = \<lparr>Logger_fns.level = level', Logger_fns.tags = tags',
                                   Logger_fns.destinations = dests, Logger_fns.logFunctions = fs\<rparr>
                       in Inr (this, w'\<lparr>Logger_instance := Some this\<rparr>))))"

text \<open>
  The loop of \<open>doLog\<close> over \<open>this.logFunctions\<close>, and \<open>Promise.all\<close> of the promises it
  collects: rejected with the first rejection, resolved when there is none. The model runs
  each log function to its end before the next; the built-in functions start their second
  write in a callback, after the first writes of the functions that follow, which gives every
  sink the same chunks in the same order.
\<close>

fun callLogFunctions ::
  "LogFunction list \<Rightarrow> Message \<Rightarrow> bool \<Rightarrow> handle list \<Rightarrow> store \<Rightarrow> completion list \<times> store" where
  "callLogFunctions [] message shouldBeLogged dests s = ([], s)"
| "callLogFunctions (logFn # rest) message shouldBeLogged dests s =
     (case logFn message shouldBeLogged dests s of
        (c, s') \<Rightarrow>
          (case callLogFunctions rest message shouldBeLogged dests s' of
             (cs, s'') \<Rightarrow> (c # cs, s'')))"

definition Promise_all :: "completion list \<Rightarrow> completion" where
  "Promise_all logFnPromises =
     (case find (\<lambda>c. c \<noteq> Resolved) logFnPromises of None \<Rightarrow> Resolved | Some c \<Rightarrow> c)"

definition doLog_fns ::
  "env \<Rightarrow> Logger_fns \<Rightarrow> string \<Rightarrow> jsval \<Rightarrow> jsval \<Rightarrow> jsval list \<Rightarrow> store
     \<Rightarrow> error + (completion \<times> store)" where
  "doLog_fns env this level' tags' format optionalParams s =
     (case doLog_shouldBeLogged (Logger_fns.level this) level' tags' of
        Inl e \<Rightarrow> Inl e
      | Inr shouldBeLogged \<Rightarrow>
          (case callLogFunctions (Logger_fns.logFunctions this)
                  (doLog_message env (Logger_fns.tags this) level' tags' format optionalParams)
                  shouldBeLogged (Logger_fns.destinations this) s of
             (logFnPromises, s') \<Rightarrow> Inr (Promise_all logFnPromises, s')))"

subsection \<open>A platform and loggers for the examples\<close>

text \<open>
  The examples below run on this platform: a stand-in for \<open>util.format\<close> that joins the
  renderings of its arguments with spaces (what \<open>util.format\<close> gives for a format string
  without directives followed by strings, and for \<open>undefined\<close> alone), a fixed clock, the
  POSIX line end, and a store of empty streams that are no terminals.
\<close>

definition example_render :: "jsval \<Rightarrow> string" where
  "example_render v =
     (case v of
        JUndefined \<Rightarrow> ''undefined''
      | JString s \<Rightarrow> s
      | JStrings ss \<Rightarrow> join '','' ss
      | JError rendering _ \<Rightarrow> rendering)"

definition example_env :: env where
  "example_env =
     \<lparr>util_format = (\<lambda>f ps. join '' '' (map example_render (f # ps))),
      now = ''2016-05-01T15:35:19.997Z'',
      EOL = [CHR 0x0A],
      getCallerFilename = ''app.js''\<rparr>"

definition example_store :: store where
  "example_store = (\<lambda>h. \<lparr>isTTY = None, instanceofWritable = True, written = []\<rparr>)"

definition terminal_store :: store where
  "terminal_store = (\<lambda>h. \<lparr>isTTY = Some True, instanceofWritable = True, written = []\<rparr>)"

text \<open>
  Sinks that are no terminals and say so: each carries the property \<open>isTTY\<close> with the value
  \<open>false\<close>.
\<close>

definition isTTY_false_store :: store where
  "isTTY_false_store = (\<lambda>h. \<lparr>isTTY = Some False, instanceofWritable = True, written = []\<rparr>)"

definition example_logger :: "string \<Rightarrow> string list \<Rightarrow> Logger" where
  "example_logger level' tags' =
     \<lparr>Logger.level = level', Logger.tags = tags',
      Logger.destinations = [process_stdout, process_stderr],
      Logger.logFunction = allDest0WarnDest1 example_env\<rparr>"

text \<open>A state in which a logger of level \<open>WARN\<close> has been constructed.\<close>

definition example_world :: "Logger world" where
  "example_world =
     \<lparr>streams = example_store, nextHandle = 3,
      Logger_instance = Some (example_logger ''WARN'' [''main.js''])\<rparr>"

definition example_logger_fns :: "string \<Rightarrow> string list \<Rightarrow> LogFunction list \<Rightarrow> Logger_fns" where
  "example_logger_fns level' tags' fs =
     \<lparr>Logger_fns.level = level', Logger_fns.tags = tags',
      Logger_fns.destinations = [process_stdout, process_stderr],
      Logger_fns.logFunctions = fs\<rparr>"

subsection \<open>Observing the sinks\<close>

text \<open>
  A sink has received a line between two stores when the line is the one chunk added to what
  was written to it; it is untouched when its object is unchanged. \<open>contents\<close> reads the
  outcome of a call together with what the given sinks hold.
\<close>

definition received :: "store \<Rightarrow> store \<Rightarrow> handle \<Rightarrow> string \<Rightarrow> bool" where
  "received s s' h line \<longleftrightarrow> written (s' h) = written (s h) @ [line]"

definition untouched :: "store \<Rightarrow> store \<Rightarrow> handle \<Rightarrow> bool" where
  "untouched s s' h \<longleftrightarrow> s' h = s h"

text \<open>
  After several log functions a sink may hold several new chunks: a line was added to it when
  what it held before is kept in front and the line is among the chunks that follow.
\<close>

definition added :: "store \<Rightarrow> store \<Rightarrow> handle \<Rightarrow> string \<Rightarrow> bool" where
  "added s s' h line \<longleftrightarrow>
     take (length (written (s h))) (written (s' h)) = written (s h)
     \<and> line \<in> set (drop (length (written (s h))) (written (s' h)))"

text \<open>
  The outcome of a log function that resolved after writing the line once to each of two
  sinks, or once to one sink, and changed no other sink.
\<close>

definition writes_both ::
  "completion \<times> store \<Rightarrow> store \<Rightarrow> handle \<Rightarrow> handle \<Rightarrow> string \<Rightarrow> bool" where
  "writes_both outcome s h h' line \<longleftrightarrow>
     fst outcome = Resolved \<and> received s (snd outcome) h line
     \<and> received s (snd outcome) h' line
     \<and> (\<forall>k. k \<noteq> h \<and> k \<noteq> h' \<longrightarrow> untouched s (snd outcome) k)"

definition writes_only :: "completion \<times> store \<Rightarrow> store \<Rightarrow> handle \<Rightarrow> string \<Rightarrow> bool" where
  "writes_only outcome s h line \<longleftrightarrow>
     fst outcome = Resolved \<and> received s (snd outcome) h line
     \<and> (\<forall>k. k \<noteq> h \<longrightarrow> untouched s (snd outcome) k)"

definition contents ::
  "handle list \<Rightarrow> error + (completion \<times> store) \<Rightarrow> error + (completion \<times> string list list)" where
  "contents hs outcome =
     (case outcome of
        Inl e \<Rightarrow> Inl e
      | Inr (c, s) \<Rightarrow> Inr (c, map (\<lambda>h. written (s h)) hs))"

section \<open>Reading a line back: \<open>JSON.parse\<close>\<close>

text \<open>
  The values \<open>JSON.parse\<close> returns for the lines of the logger: \<open>null\<close>, strings, arrays
  and objects (numbers and booleans do not occur in a message and are not modelled). The
  parser skips white space between tokens, decodes the escapes of a string, and needs the whole
  input to be one value followed by white space only. Its recursion is bounded by fuel; the
  length of the input is fuel enough for every line the logger writes, as proved below.
\<close>

datatype json = JNull | JStr string | JArr "json list" | JObj "(string \<times> json) list"

datatype parse_error = SyntaxError

definition is_ws :: "char \<Rightarrow> bool" where
  "is_ws c \<longleftrightarrow> c = CHR 0x20 \<or> c = CHR 0x09 \<or> c = CHR 0x0A \<or> c = CHR 0x0D"

definition skip_ws :: "string \<Rightarrow> string" where
  "skip_ws s = dropWhile is_ws s"

definition unhex :: "char \<Rightarrow> nat option" where
  "unhex c =
     map_of (zip ''0123456789abcdefABCDEF''
               [0, 1, 2, 3, 4, 5, 6, 7, 8, 9, 10, 11, 12, 13, 14, 15, 10, 11, 12, 13, 14, 15]) c"

text \<open>The character after a backslash, for the two-character escapes.\<close>

definition unescape :: "char \<Rightarrow> char option" where
  "unescape e =
     (if e = CHR 0x22 then Some (CHR 0x22)
      else if e = CHR 0x5C then Some (CHR 0x5C)
      else if e = CHR ''/'' then Some (CHR ''/'')
      else if e = CHR ''b'' then Some (CHR 0x08)
      else if e = CHR ''f'' then Some (CHR 0x0C)
      else if e = CHR ''n'' then Some (CHR 0x0A)
      else if e = CHR ''r'' then Some (CHR 0x0D)
      else if e = CHR ''t'' then Some (CHR 0x09)
      else None)"

text \<open>
  \<open>\uXXXX\<close>: the code unit of four hexadecimal digits, when it is a character of the model
  (below 256).
\<close>

definition unicode_escape :: "char \<Rightarrow> char \<Rightarrow> char \<Rightarrow> char \<Rightarrow> char option" where
  "unicode_escape h1 h2 h3 h4 =
     (case (unhex h1, unhex h2, unhex h3, unhex h4) of
        (Some a, Some b, Some c, Some d) \<Rightarrow>
          if ((a * 16 + b) * 16 + c) * 16 + d < 256
          then Some (char_of (((a * 16 + b) * 16 + c) * 16 + d))
          else None
      | _ \<Rightarrow> None)"

text \<open>
  The rest of a string after its opening quote: the decoded characters up to the closing
  quote, and the input after it. A raw control character is a syntax error.
\<close>

fun parse_string_body :: "string \<Rightarrow> (string \<times> string) option" where
  "parse_string_body [] = None"
| "parse_string_body [c] = (if c = CHR 0x22 then Some ([], []) else None)"
| "parse_string_body (c # e # cs) =
     (if c = CHR 0x22 then Some ([], e # cs)
      else if c = CHR 0x5C then
        (if e = CHR ''u'' then
           (case cs of
              h1 # h2 # h3 # h4 # cs' \<Rightarrow>
                (case unicode_escape h1 h2 h3 h4 of
                   None \<Rightarrow> None
                 | Some ch \<Rightarrow> map_option (apfst ((#) ch)) (parse_string_body cs'))
            | _ \<Rightarrow> None)
         else
           (case unescape e of
              None \<Rightarrow> None
            | Some ch \<Rightarrow> map_option (apfst ((#) ch)) (parse_string_body cs)))
      else if (of_char c :: nat) < 32 then None
      else map_option (apfst ((#) c)) (parse_string_body (e # cs)))"

fun parse_value :: "nat \<Rightarrow> string \<Rightarrow> (json \<times> string) option"
  and parse_elements :: "nat \<Rightarrow> string \<Rightarrow> (json list \<times> string) option"
  and parse_members :: "nat \<Rightarrow> string \<Rightarrow> ((string \<times> json) list \<times> string) option"
where
  "parse_value 0 s = None"
| "parse_value (Suc n) s =
     (case skip_ws s of
        [] \<Rightarrow> None
      | c # cs \<Rightarrow>
          if c = CHR 0x22 then map_option (apfst JStr) (parse_string_body cs)
          else if c = CHR ''['' then
            (case skip_ws cs of
               [] \<Rightarrow> None
             | d # ds \<Rightarrow>
                 if d = CHR '']'' then Some (JArr [], ds)
                 else map_option (apfst JArr) (parse_elements n cs))
          else if c = CHR ''{'' then
            (case skip_ws cs of
               [] \<Rightarrow> None
             | d # ds \<Rightarrow>
                 if d = CHR ''}'' then Some (JObj [], ds)
                 else map_option (apfst JObj) (parse_members n cs))
          else if take 4 (c # cs) = ''null'' then Some (JNull, drop 4 (c # cs))
          else None)"
| "parse_elements 0 s = None"
| "parse_elements (Suc n) s =
     (case parse_value n s of
        None \<Rightarrow> None
      | Some (v, r) \<Rightarrow>
          (case skip_ws r of
             [] \<Rightarrow> None
           | d # ds \<Rightarrow>
               if d = CHR '','' then map_option (apfst ((#) v)) (parse_elements n ds)
               else if d = CHR '']'' then Some ([v], ds)
               else None))"
| "parse_members 0 s = None"
| "parse_members (Suc n) s =
     (case skip_ws s of
        [] \<Rightarrow> None
      | c # cs \<Rightarrow>
          if c = CHR 0x22 then
            (case parse_string_body cs of
               None \<Rightarrow> None
             | Some (k, r) \<Rightarrow>
                 (case skip_ws r of
                    [] \<Rightarrow> None
                  | c' # r' \<Rightarrow>
                      if c' = CHR '':'' then
                        (case parse_value n r' of
                           None \<Rightarrow> None
                         | Some (v, r'') \<Rightarrow>
                             (case skip_ws r'' of
                                [] \<Rightarrow> None
                              | d # ds \<Rightarrow>
                                  if d = CHR '','' then
                                    map_option (apfst ((#) (k, v))) (parse_members n ds)
                                  else if d = CHR ''}'' then Some ([(k, v)], ds)
                                  else None))
                      else None))
          else None)"

definition JSON_parse :: "string \<Rightarrow> parse_error + json" where
  "JSON_parse s =
     (case parse_value (length s) s of
        None \<Rightarrow> Inl SyntaxError
      | Some (v, r) \<Rightarrow> if skip_ws r = [] then Inr v else Inl SyntaxError)"

text \<open>
  Reading a property of the parsed record: the last member with that name; \<open>undefined\<close>
  (\<open>None\<close>) when there is none or the value is no object.
\<close>

definition property :: "json \<Rightarrow> string \<Rightarrow> json option" where
  "property v name = (case v of JObj members \<Rightarrow> map_of (rev members) name | _ \<Rightarrow> None)"

text \<open>
  The value that stands for a message: its properties in the order \<open>JSON.stringify\<close> writes
  them, an \<open>undefined\<close> tag as \<open>null\<close>, an \<open>Error\<close> object as the empty object.
\<close>

definition json_of_value :: "jsval \<Rightarrow> json" where
  "json_of_value v =
     (case v of
        JUndefined \<Rightarrow> JNull
      | JString s \<Rightarrow> JStr s
      | JStrings ss \<Rightarrow> JArr (map JStr ss)
      | JError _ _ \<Rightarrow> JObj [])"

definition json_of_message :: "Message \<Rightarrow> json" where
  "json_of_message message =
     JObj ([(''isoDate'', JStr (isoDate message)),
            (''level'', JStr (Message.level message)),
            (''tags'', JArr (map json_of_value (Message.tags message))),
            (''text'', JStr (text message))]
           @ (case stack message of None \<Rightarrow> [] | Some st \<Rightarrow> [(''stack'', JStr st)]))"

text \<open>
  The text of a value without white space, as \<open>JSON.stringify\<close> writes it, and a bound on the
  fuel the parser needs to read it back.
\<close>

fun JSON_text :: "json \<Rightarrow> string" where
  "JSON_text JNull = ''null''"
| "JSON_text (JStr s) = JSON_quote s"
| "JSON_text (JArr xs) = ''['' @ join '','' (map JSON_text xs) @ '']''"
| "JSON_text (JObj ms) =
     ''{'' @ join '','' (map (\<lambda>m. JSON_quote (fst m) @ '':'' @ JSON_text (snd m)) ms) @ ''}''"

fun fuel_of :: "json \<Rightarrow> nat" where
  "fuel_of JNull = 1"
| "fuel_of (JStr s) = 1"
| "fuel_of (JArr xs) = Suc (length xs + sum_list (map fuel_of xs))"
| "fuel_of (JObj ms) = Suc (length ms + sum_list (map (\<lambda>m. fuel_of (snd m)) ms))"

section \<open>Properties\<close>

subsection \<open>Level tokens and positions\<close>

lemma indexOf_logLevelNames:
  "indexOf logLevelNames s = (case level_of s of None \<Rightarrow> - 1 | Some a \<Rightarrow> int (position a))"
  by (simp add: indexOf_def logLevelNames_def level_of_def LogLevel_OFF_def LogLevel_ERROR_def
      LogLevel_WARN_def LogLevel_INFO_def LogLevel_DEBUG_def)

lemma level_of_token [simp]: "level_of (token a) = Some a"
  by (cases a) (simp_all add: level_of_def)

lemma level_of_Some: "level_of s = Some a \<Longrightarrow> s = token a"
  by (auto simp: level_of_def split: if_splits)

lemma toUpperCase_token [simp]: "toUpperCase (token a) = token a"
  by (cases a) (simp_all add: toUpperCase_def toUpperChar_def)

lemma indexOf_from_absent: "indexOf_from i xs x = - 1 \<longleftrightarrow> x \<notin> set xs"
  by (induction xs arbitrary: i) auto

lemma indexOf_absent: "indexOf xs x = - 1 \<longleftrightarrow> x \<notin> set xs"
  by (simp add: indexOf_def indexOf_from_absent)

lemma indexOf_from_ge: "indexOf_from i xs x \<ge> - 1"
  by (induction xs arbitrary: i) auto

lemma indexOf_present: "indexOf xs x > - 1 \<longleftrightarrow> x \<in> set xs"
  using indexOf_from_ge [of 0 xs x] indexOf_absent [of xs x] by (auto simp: indexOf_def)

lemma isFirst_positions:
  "isFirstLoglevelGreaterEqualSecond l1 l2 =
     (case level_of (toUpperCase l1) of
        None \<Rightarrow> Inl (Error (loglevelMessage (toUpperCase l1)))
      | Some a \<Rightarrow>
          (case level_of l2 of
             None \<Rightarrow> Inr True
           | Some b \<Rightarrow> Inr (position a \<ge> position b)))"
  by (simp add: isFirstLoglevelGreaterEqualSecond_def checkLoglevel_def indexOf_logLevelNames
      Let_def split: option.splits)

lemma isFirst_INFO:
  "level_of (toUpperCase l) = Some a \<Longrightarrow>
     isFirstLoglevelGreaterEqualSecond l LogLevel_INFO = Inr (position a \<ge> 3)"
  by (simp add: isFirst_positions LogLevel_INFO_def level_of_def)

lemma doLog_shouldBeLogged_positions:
  "doLog_shouldBeLogged thisLevel lvl tgs =
     (case level_of (toUpperCase thisLevel) of
        None \<Rightarrow> Inl (Error (loglevelMessage (toUpperCase thisLevel)))
      | Some a \<Rightarrow>
          Inr ((case level_of lvl of None \<Rightarrow> True | Some b \<Rightarrow> position a \<ge> position b)
               \<or> JString ''always'' \<in> set (concat_value [] tgs)))"
  by (simp add: doLog_shouldBeLogged_def isFirst_positions indexOf_present split: option.splits)

subsection \<open>Writes\<close>

lemma received_write [simp]: "received s (stream_write h line s) h line"
  by (simp add: received_def stream_write_def)

lemma received_write_other [simp]:
  "h \<noteq> h' \<Longrightarrow> received s (stream_write h' line' s') h line \<longleftrightarrow> received s s' h line"
  by (simp add: received_def stream_write_def)

lemma untouched_refl [simp]: "untouched s s h"
  by (simp add: untouched_def)

lemma untouched_write_other [simp]:
  "h \<noteq> h' \<Longrightarrow> untouched s (stream_write h' line s') h \<longleftrightarrow> untouched s s' h"
  by (simp add: untouched_def stream_write_def)

lemma received_not_untouched: "received s s' h line \<Longrightarrow> \<not> untouched s s' h"
  by (auto simp: received_def untouched_def)

lemma at_Cons_0 [simp]: "at (x # xs) 0 = Some x"
  by (simp add: at_def)

lemma at_Cons_1 [simp]: "at (x # y # ys) (Suc 0) = Some y" "at [x] (Suc 0) = None"
  by (simp_all add: at_def)

lemma at_Nil [simp]: "at [] i = None"
  by (simp add: at_def)

subsection \<open>The fan-out of the built-in log functions\<close>

lemma allDest0WarnDest1_not_logged: "allDest0WarnDest1 env m False ds s = (Resolved, s)"
  by (simp add: allDest0WarnDest1_def)

lemma allDest0WarnDest1_two:
  assumes "level_of (toUpperCase (Message.level m)) = Some b"
  shows "allDest0WarnDest1 env m True (d0 # d1 # ds) s =
     (Resolved,
      if position b < 3 \<and> d0 \<noteq> d1 then
        if isTty s (Some d0) \<and> isTty s (Some d1)
        then stream_write d1 (JSON_stringify m @ EOL env) s
        else stream_write d0 (JSON_stringify m @ EOL env)
               (stream_write d1 (JSON_stringify m @ EOL env) s)
      else stream_write d0 (JSON_stringify m @ EOL env) s)"
  using assms by (auto simp: allDest0WarnDest1_def isFirst_INFO Let_def)

lemma allDest0WarnDest1_one:
  assumes "level_of (toUpperCase (Message.level m)) = Some b"
  shows "allDest0WarnDest1 env m True [d0] s =
     (Resolved, stream_write d0 (JSON_stringify m @ EOL env) s)"
  using assms by (auto simp: allDest0WarnDest1_def isFirst_INFO Let_def)

lemma writeToDefaultDestination_not_logged:
  "writeToDefaultDestination line lvl False ds s = (Resolved, s)"
  by (simp add: writeToDefaultDestination_def)

lemma writeToDefaultDestination_two:
  assumes "level_of (toUpperCase lvl) = Some b"
  shows "writeToDefaultDestination line lvl True (d0 # d1 # ds) s =
     (Resolved,
      if position b < 3 \<and> d0 \<noteq> d1 then
        if isTty_fns s (Some d0) = Inr True \<and> isTty_fns s (Some d1) = Inr True
        then stream_write d1 line s
        else stream_write d0 line (stream_write d1 line s)
      else stream_write d0 line s)"
  using assms by (auto simp: writeToDefaultDestination_def isFirst_INFO Let_def isTty_fns_def)

lemma writeToDefaultDestination_one:
  assumes "level_of (toUpperCase lvl) = Some b"
  shows "writeToDefaultDestination line lvl True [d0] s =
     (if isTTY (s d0) = None then (Resolved, stream_write d0 line s)
      else (Rejected (TypeError ''Cannot use in operator to search for isTTY in undefined''), s))"
  using assms by (auto simp: writeToDefaultDestination_def isFirst_INFO Let_def isTty_fns_def)

lemma level_of_upper_names [simp]:
  "level_of (toUpperCase ''OFF'') = Some OFF"
  "level_of (toUpperCase ''ERROR'') = Some ERROR"
  "level_of (toUpperCase ''WARN'') = Some WARN"
  "level_of (toUpperCase ''INFO'') = Some INFO"
  "level_of (toUpperCase ''DEBUG'') = Some DEBUG"
  by (simp_all add: level_of_def toUpperCase_def toUpperChar_def)

lemma level_of_names [simp]:
  "level_of ''OFF'' = Some OFF"
  "level_of ''ERROR'' = Some ERROR"
  "level_of ''WARN'' = Some WARN"
  "level_of ''INFO'' = Some INFO"
  "level_of ''DEBUG'' = Some DEBUG"
  by (simp_all add: level_of_def)

subsection \<open>The level comparison\<close>

text \<open>
  C1 (as the code has it). The first token is uppercased and checked, the second is only looked
  up: when the uppercased first token is no member of the enumeration the comparison throws;
  otherwise it returns whether the first position is at least the second, where a second token
  outside the enumeration has index \<open>-1\<close> and so compares as below every level (the result is
  \<open>true\<close>, no error).
\<close>

theorem isFirstLoglevelGreaterEqualSecond_positions:
  "isFirstLoglevelGreaterEqualSecond l1 l2 =
     (case level_of (toUpperCase l1) of
        None \<Rightarrow> Inl (Error (loglevelMessage (toUpperCase l1)))
      | Some a \<Rightarrow>
          (case level_of l2 of
             None \<Rightarrow> Inr True
           | Some b \<Rightarrow> Inr (position a \<ge> position b)))"
  by (rule isFirst_positions)

theorem isFirstLoglevelGreaterEqualSecond_positions_witness:
  "isFirstLoglevelGreaterEqualSecond ''warn'' ''INFO'' = Inr False
   \<and> isFirstLoglevelGreaterEqualSecond ''Debug'' ''INFO'' = Inr True
   \<and> isFirstLoglevelGreaterEqualSecond ''verbose'' ''INFO''
       = Inl (Error (loglevelMessage ''VERBOSE''))"
  using isFirstLoglevelGreaterEqualSecond_positions [of "''warn''" "''INFO''"]
    isFirstLoglevelGreaterEqualSecond_positions [of "''Debug''" "''INFO''"]
    isFirstLoglevelGreaterEqualSecond_positions [of "''verbose''" "''INFO''"]
  by (simp add: level_of_def toUpperCase_def toUpperChar_def)

text \<open>
  C1 (as the specification words it) fails: with the second token outside the enumeration the
  comparison returns a boolean.
\<close>

theorem isFirstLoglevelGreaterEqualSecond_second_unchecked:
  "isFirstLoglevelGreaterEqualSecond ''INFO'' ''VERBOSE'' = Inr True"
  by (simp add: isFirstLoglevelGreaterEqualSecond_def checkLoglevel_def indexOf_logLevelNames
      level_of_def toUpperCase_def toUpperChar_def)

subsection \<open>Filtered messages\<close>

lemma callLogFunctions_not_logged:
  "set fs \<subseteq> {defaultText env, defaultJson env} \<Longrightarrow>
     callLogFunctions fs m False ds s = (replicate (length fs) Resolved, s)"
  by (induction fs)
    (auto simp: defaultText_def defaultJson_def writeToDefaultDestination_not_logged)

lemma Promise_all_Resolved [simp]: "Promise_all (replicate n Resolved) = Resolved"
  by (induction n) (simp_all add: Promise_all_def)

lemma doLog_filtered:
  assumes "doLog_shouldBeLogged (Logger.level this) lvl tgs = Inr False"
    and "Logger.logFunction this = allDest0WarnDest1 env"
  shows "doLog env this lvl tgs format ps s = Inr (Resolved, s)"
  using assms by (simp add: doLog_def allDest0WarnDest1_not_logged)

lemma doLog_fns_filtered:
  assumes "doLog_shouldBeLogged (Logger_fns.level this) lvl tgs = Inr False"
    and "set (Logger_fns.logFunctions this) \<subseteq> {defaultText env, defaultJson env}"
  shows "doLog_fns env this lvl tgs format ps s = Inr (Resolved, s)"
  using assms by (simp add: doLog_fns_def callLogFunctions_not_logged)

text \<open>
  C2 (as the code has it). A message whose level is strictly more verbose than the logger's
  level, and whose call tags do not contain \<open>always\<close>, writes nothing: the dispatch resolves
  and leaves the store of sinks as it was, with the built-in log function of either variant.
  Every built-in log function called with \<open>shouldBeLogged\<close> false resolves at once without a
  write.
\<close>

theorem filtered_message_writes_nothing:
  assumes "level_of (toUpperCase thisLevel) = Some a" and "level_of lvl = Some b"
    and "position a < position b"
    and "JString ''always'' \<notin> set (concat_value [] tgs)"
  shows "(Logger.level this = thisLevel \<and> Logger.logFunction this = allDest0WarnDest1 env
            \<longrightarrow> doLog env this lvl tgs format ps s = Inr (Resolved, s))
       \<and> (Logger_fns.level this' = thisLevel
            \<and> set (Logger_fns.logFunctions this') \<subseteq> {defaultText env, defaultJson env}
            \<longrightarrow> doLog_fns env this' lvl tgs format ps s = Inr (Resolved, s))
       \<and> allDest0WarnDest1 env m False ds s = (Resolved, s)
       \<and> defaultText env m False ds s = (Resolved, s)
       \<and> defaultJson env m False ds s = (Resolved, s)"
proof -
  have filtered: "doLog_shouldBeLogged thisLevel lvl tgs = Inr False"
    using assms by (simp add: doLog_shouldBeLogged_positions)
  show ?thesis
    using filtered
    by (auto simp: doLog_filtered doLog_fns_filtered allDest0WarnDest1_not_logged
        defaultText_def defaultJson_def writeToDefaultDestination_not_logged)
qed

lemma example_env_fields [simp]:
  "EOL example_env = [CHR 0x0A]"
  "now example_env = ''2016-05-01T15:35:19.997Z''"
  "getCallerFilename example_env = ''app.js''"
  by (simp_all add: example_env_def)

lemma example_message_eq:
  "doLog_message example_env thisTags lvl (JStrings ts) (JString f) [] =
     \<lparr>isoDate = ''2016-05-01T15:35:19.997Z'', Message.level = lvl,
      Message.tags = map JString (thisTags @ ts), text = f, stack = None\<rparr>"
  by (simp add: doLog_message_def example_env_def concat_value_def example_render_def)

theorem filtered_message_writes_nothing_witness:
  "doLog example_env (example_logger ''INFO'' []) ''DEBUG'' (JStrings []) (JString ''skip'') []
     example_store = Inr (Resolved, example_store)
   \<and> doLog_fns example_env
       (example_logger_fns ''INFO'' [] [defaultText example_env, defaultJson example_env])
       ''DEBUG'' (JStrings []) (JString ''skip'') [] example_store = Inr (Resolved, example_store)"
  using filtered_message_writes_nothing [where thisLevel = "''INFO''" and a = INFO
      and lvl = "''DEBUG''" and b = DEBUG and tgs = "JStrings []"
      and this = "example_logger ''INFO'' []" and env = example_env
      and this' = "example_logger_fns ''INFO'' [] [defaultText example_env, defaultJson example_env]"
      and format = "JString ''skip''" and ps = "[]" and s = example_store]
  by (simp add: concat_value_def example_logger_def example_logger_fns_def)

text \<open>
  C2 (as the specification words it) fails: on a logger of level \<open>INFO\<close> an \<open>ERROR\<close> message,
  strictly less verbose than \<open>INFO\<close> and without tags, is written to both destinations.
\<close>

theorem less_verbose_message_is_written:
  "contents [process_stdout, process_stderr]
     (doLog example_env (example_logger ''INFO'' []) ''ERROR'' (JStrings []) (JString ''boom'') []
        example_store)
   = Inr (Resolved,
       [[JSON_stringify \<lparr>isoDate = ''2016-05-01T15:35:19.997Z'', Message.level = ''ERROR'',
           Message.tags = [], text = ''boom'', stack = None\<rparr> @ [CHR 0x0A]],
        [JSON_stringify \<lparr>isoDate = ''2016-05-01T15:35:19.997Z'', Message.level = ''ERROR'',
           Message.tags = [], text = ''boom'', stack = None\<rparr> @ [CHR 0x0A]]])"
  by (simp add: contents_def doLog_def doLog_shouldBeLogged_positions example_message_eq
      example_logger_def allDest0WarnDest1_two [where b = ERROR] isTty_def example_store_def
      process_stdout_def process_stderr_def stream_write_def concat_value_def)

subsection \<open>The tag \<open>always\<close>\<close>

lemma toUpperCase_level_of: "level_of l = Some b \<Longrightarrow> level_of (toUpperCase l) = Some b"
  by (auto dest!: level_of_Some)

lemma allDest0WarnDest1_writes:
  assumes "level_of (toUpperCase (Message.level m)) = Some b"
  shows "\<exists>s'. allDest0WarnDest1 env m True (d0 # ds) s = (Resolved, s')
           \<and> (\<exists>h \<in> set (take 2 (d0 # ds)). received s s' h (JSON_stringify m @ EOL env))"
proof (cases ds)
  case Nil
  then show ?thesis
    using assms by (simp add: allDest0WarnDest1_one)
next
  case (Cons d1 ds')
  then show ?thesis
    using assms
    by (simp add: allDest0WarnDest1_two numeral_2_eq_2 received_def stream_write_def)
qed

lemma writeToDefaultDestination_writes:
  assumes "level_of (toUpperCase lvl) = Some b" and "ds \<noteq> [] \<or> isTTY (s d0) = None"
  shows "\<exists>s'. writeToDefaultDestination line lvl True (d0 # ds) s = (Resolved, s')
           \<and> (\<exists>h \<in> set (take 2 (d0 # ds)). received s s' h line)"
proof (cases ds)
  case Nil
  then show ?thesis
    using assms by (simp add: writeToDefaultDestination_one)
next
  case (Cons d1 ds')
  then show ?thesis
    using assms
    by (simp add: writeToDefaultDestination_two numeral_2_eq_2 received_def stream_write_def)
qed

lemma doLog_message_level [simp]: "Message.level (doLog_message env ts lvl tgs format ps) = lvl"
  by (simp add: doLog_message_def Let_def)

lemma Promise_all_single [simp]: "Promise_all [Resolved] = Resolved"
  by (simp add: Promise_all_def)

text \<open>
  What a built-in log function of the variant with several log functions leaves behind: it
  only appends to sinks and never changes their \<open>isTTY\<close> property.
\<close>

lemma writeToDefaultDestination_appends:
  "\<exists>xs. written (snd (writeToDefaultDestination line lvl b ds s) h) = written (s h) @ xs"
  by (simp add: writeToDefaultDestination_def Let_def stream_write_def
      split: sum.splits option.splits)

lemma writeToDefaultDestination_isTTY:
  "isTTY (snd (writeToDefaultDestination line lvl b ds s) h) = isTTY (s h)"
  by (simp add: writeToDefaultDestination_def Let_def stream_write_def
      split: sum.splits option.splits)

lemma added_after_received:
  assumes "received s s1 h line" and "\<exists>xs. written (s' h) = written (s1 h) @ xs"
  shows "added s s' h line"
  using assms by (auto simp: added_def received_def)

lemma added_after_appending:
  assumes "\<exists>xs. written (s1 h) = written (s h) @ xs" and "added s1 s' h line"
  shows "added s s' h line"
proof -
  obtain xs where xs: "written (s1 h) = written (s h) @ xs"
    using assms(1) by blast
  obtain ys where ys: "written (s' h) = written (s1 h) @ ys" and line: "line \<in> set ys"
    using assms(2) unfolding added_def
    by (metis append_take_drop_id)
  show ?thesis
    using xs ys line by (simp add: added_def)
qed

text \<open>
  Any number of built-in log functions, called one after the other with \<open>shouldBeLogged\<close>
  true: all resolve, and the line of each is added to one of the first two destinations.
\<close>

lemma callLogFunctions_built_in:
  assumes "level_of (toUpperCase (Message.level m)) = Some b"
    and "set fs \<subseteq> {defaultText env, defaultJson env}"
    and "ds \<noteq> [] \<or> isTTY (s d0) = None"
  shows "\<exists>s'. callLogFunctions fs m True (d0 # ds) s = (replicate (length fs) Resolved, s')
       \<and> (\<forall>h. \<exists>xs. written (s' h) = written (s h) @ xs)
       \<and> (defaultText env \<in> set fs \<longrightarrow>
            (\<exists>h \<in> set (take 2 (d0 # ds)). added s s' h (defaultText_messageText env m)))
       \<and> (defaultJson env \<in> set fs \<longrightarrow>
            (\<exists>h \<in> set (take 2 (d0 # ds)). added s s' h (defaultJson_messageText env m)))"
  using assms(2,3)
proof (induction fs arbitrary: s)
  case Nil
  then show ?case by simp
next
  case (Cons f fs)
  define line where "line =
    (if f = defaultText env then defaultText_messageText env m
     else defaultJson_messageText env m)"
  define s1 where "s1 = snd (writeToDefaultDestination line (Message.level m) True (d0 # ds) s)"
  have f: "f = defaultText env \<or> f = defaultJson env"
    using Cons.prems(1) by auto
  have call: "f m True (d0 # ds) s =
      writeToDefaultDestination line (Message.level m) True (d0 # ds) s"
    using f by (auto simp: line_def defaultText_def defaultJson_def)
  obtain s1' where first: "writeToDefaultDestination line (Message.level m) True (d0 # ds) s
        = (Resolved, s1')"
    and got: "\<exists>h \<in> set (take 2 (d0 # ds)). received s s1' h line"
    using writeToDefaultDestination_writes [of "Message.level m" b ds s d0 line,
        OF assms(1) Cons.prems(2)] by blast
  have s1: "s1' = s1"
    by (simp add: s1_def first)
  have grows1: "\<exists>xs. written (s1 h) = written (s h) @ xs" for h
    unfolding s1_def by (rule writeToDefaultDestination_appends)
  have "isTTY (s1 d0) = isTTY (s d0)"
    unfolding s1_def by (rule writeToDefaultDestination_isTTY)
  then have writable: "ds \<noteq> [] \<or> isTTY (s1 d0) = None"
    using Cons.prems(2) by simp
  have rest: "set fs \<subseteq> {defaultText env, defaultJson env}"
    using Cons.prems(1) by simp
  obtain s' where run: "callLogFunctions fs m True (d0 # ds) s1
        = (replicate (length fs) Resolved, s')"
    and grows: "\<And>h. \<exists>xs. written (s' h) = written (s1 h) @ xs"
    and text_line: "defaultText env \<in> set fs \<Longrightarrow>
        \<exists>h \<in> set (take 2 (d0 # ds)). added s1 s' h (defaultText_messageText env m)"
    and json_line: "defaultJson env \<in> set fs \<Longrightarrow>
        \<exists>h \<in> set (take 2 (d0 # ds)). added s1 s' h (defaultJson_messageText env m)"
    using Cons.IH [of s1, OF rest writable] by blast
  have whole: "callLogFunctions (f # fs) m True (d0 # ds) s
      = (replicate (length (f # fs)) Resolved, s')"
    using call first s1 run by simp
  have all_grow: "\<exists>xs. written (s' h) = written (s h) @ xs" for h
    using grows1 [of h] grows [of h] by auto
  have first_line: "\<exists>h \<in> set (take 2 (d0 # ds)). added s s' h line"
    using got s1 grows added_after_received by blast
  have later: "\<exists>h \<in> set (take 2 (d0 # ds)). added s s' h l"
    if "\<exists>h \<in> set (take 2 (d0 # ds)). added s1 s' h l" for l
    using that grows1 added_after_appending by blast
  have "\<exists>h \<in> set (take 2 (d0 # ds)). added s s' h (defaultText_messageText env m)"
    if "defaultText env \<in> set (f # fs)"
  proof (cases "f = defaultText env")
    case True
    then show ?thesis using first_line by (simp add: line_def)
  next
    case False
    then show ?thesis using that text_line later by simp
  qed
  moreover have "\<exists>h \<in> set (take 2 (d0 # ds)). added s s' h (defaultJson_messageText env m)"
    if "defaultJson env \<in> set (f # fs)"
  proof (cases "f = defaultJson env")
    case True
    show ?thesis
    proof (cases "f = defaultText env")
      case same: True
      then have "defaultText env m True (d0 # ds) s = defaultJson env m True (d0 # ds) s"
        using True by simp
      then have "writeToDefaultDestination (defaultJson_messageText env m) (Message.level m)
            True (d0 # ds) s = (Resolved, s1)"
        using first s1 same by (simp add: line_def defaultText_def defaultJson_def)
      moreover obtain s2 where "writeToDefaultDestination (defaultJson_messageText env m)
            (Message.level m) True (d0 # ds) s = (Resolved, s2)"
        and "\<exists>h \<in> set (take 2 (d0 # ds)). received s s2 h (defaultJson_messageText env m)"
        using writeToDefaultDestination_writes [of "Message.level m" b ds s d0
            "defaultJson_messageText env m", OF assms(1) Cons.prems(2)] by blast
      ultimately have "\<exists>h \<in> set (take 2 (d0 # ds)).
          received s s1 h (defaultJson_messageText env m)"
        by simp
      then show ?thesis
        using grows added_after_received by blast
    next
      case False
      then show ?thesis using first_line by (simp add: line_def)
    qed
  next
    case False
    then show ?thesis using that json_line later by simp
  qed
  ultimately show ?case
    using whole all_grow by blast
qed

lemma Promise_all_replicate [simp]: "Promise_all (replicate n Resolved) = Resolved"
  by (induction n) (simp_all add: Promise_all_def)

text \<open>
  C3 (as the code has it). \<open>shouldBeLogged\<close> is the level comparison or the presence of
  \<open>always\<close> among the tags of the call; the tags of the logger are not consulted. So a call
  whose own tags contain \<open>always\<close> is written whatever the level of the logger, \<open>OFF\<close>
  included, under these conditions, each of them a hypothesis below: the level of the logger
  and the level of the call are valid; the logger has at least one destination; its log
  function is \<open>allDest0WarnDest1\<close>, or, in the variant with several log functions, each of
  its log functions is \<open>defaultText\<close> or \<open>defaultJson\<close> and the logger has a second
  destination or a first one without \<open>isTTY\<close> property. Then the call resolves; with
  \<open>allDest0WarnDest1\<close> the JSON line is the one chunk that one of the first two destinations
  receives; with a single \<open>defaultText\<close> or \<open>defaultJson\<close> so is its line; and with any
  number of them the line of each registered one is added to one of the first two
  destinations. (With a single destination that carries an \<open>isTTY\<close> property the variant with
  several log functions reads \<open>isTTY\<close> of the missing second destination; that case is
  \<open>single_destination_with_isTTY\<close> below and is no part of this statement.)
\<close>

theorem always_in_call_tags_forces_logging:
  assumes "level_of (toUpperCase thisLevel) = Some a" and "level_of lvl = Some b"
  shows "doLog_shouldBeLogged thisLevel lvl tgs
           = Inr (position a \<ge> position b \<or> JString ''always'' \<in> set (concat_value [] tgs))
       \<and> (JString ''always'' \<in> set (concat_value [] tgs) \<longrightarrow>
            (Logger.level this = thisLevel \<and> Logger.logFunction this = allDest0WarnDest1 env
               \<and> Logger.destinations this = d0 # ds \<longrightarrow>
               (\<exists>s'. doLog env this lvl tgs format ps s = Inr (Resolved, s')
                  \<and> (\<exists>h \<in> set (take 2 (d0 # ds)). received s s' h
                        (JSON_stringify (doLog_message env (Logger.tags this) lvl tgs format ps)
                           @ EOL env))))
          \<and> (Logger_fns.level this' = thisLevel \<and> Logger_fns.destinations this' = d0 # ds
               \<and> (ds \<noteq> [] \<or> isTTY (s d0) = None) \<longrightarrow>
               (Logger_fns.logFunctions this' = [defaultText env] \<longrightarrow>
                  (\<exists>s'. doLog_fns env this' lvl tgs format ps s = Inr (Resolved, s')
                     \<and> (\<exists>h \<in> set (take 2 (d0 # ds)). received s s' h
                           (defaultText_messageText env
                              (doLog_message env (Logger_fns.tags this') lvl tgs format ps)))))
               \<and> (Logger_fns.logFunctions this' = [defaultJson env] \<longrightarrow>
                  (\<exists>s'. doLog_fns env this' lvl tgs format ps s = Inr (Resolved, s')
                     \<and> (\<exists>h \<in> set (take 2 (d0 # ds)). received s s' h
                           (defaultJson_messageText env
                              (doLog_message env (Logger_fns.tags this') lvl tgs format ps)))))
               \<and> (set (Logger_fns.logFunctions this') \<subseteq> {defaultText env, defaultJson env} \<longrightarrow>
                  (\<exists>s'. doLog_fns env this' lvl tgs format ps s = Inr (Resolved, s')
                     \<and> (defaultText env \<in> set (Logger_fns.logFunctions this') \<longrightarrow>
                          (\<exists>h \<in> set (take 2 (d0 # ds)). added s s' h
                             (defaultText_messageText env
                                (doLog_message env (Logger_fns.tags this') lvl tgs format ps))))
                     \<and> (defaultJson env \<in> set (Logger_fns.logFunctions this') \<longrightarrow>
                          (\<exists>h \<in> set (take 2 (d0 # ds)). added s s' h
                             (defaultJson_messageText env
                                (doLog_message env (Logger_fns.tags this') lvl tgs format
                                   ps))))))))"
proof -
  have upper: "level_of (toUpperCase lvl) = Some b"
    using assms(2) by (rule toUpperCase_level_of)
  have formula: "doLog_shouldBeLogged thisLevel lvl tgs
      = Inr (position a \<ge> position b \<or> JString ''always'' \<in> set (concat_value [] tgs))"
    using assms by (simp add: doLog_shouldBeLogged_positions)
  have one: "\<exists>s'. doLog env this lvl tgs format ps s = Inr (Resolved, s')
       \<and> (\<exists>h \<in> set (take 2 (d0 # ds)). received s s' h
             (JSON_stringify (doLog_message env (Logger.tags this) lvl tgs format ps) @ EOL env))"
    if "JString ''always'' \<in> set (concat_value [] tgs)" "Logger.level this = thisLevel"
      "Logger.logFunction this = allDest0WarnDest1 env" "Logger.destinations this = d0 # ds"
    using that formula upper
      allDest0WarnDest1_writes [of "doLog_message env (Logger.tags this) lvl tgs format ps" b
        env d0 ds s]
    by (simp add: doLog_def)
  have several: "\<exists>s'. doLog_fns env this' lvl tgs format ps s = Inr (Resolved, s')
       \<and> (\<exists>h \<in> set (take 2 (d0 # ds)). received s s' h
             (line (doLog_message env (Logger_fns.tags this') lvl tgs format ps)))"
    if always: "JString ''always'' \<in> set (concat_value [] tgs)"
      and this': "Logger_fns.level this' = thisLevel" "Logger_fns.destinations this' = d0 # ds"
        "Logger_fns.logFunctions this' = [f]"
      and writable: "ds \<noteq> [] \<or> isTTY (s d0) = None"
      and f: "\<And>m b ds s. f m b ds s = writeToDefaultDestination (line m) (Message.level m) b ds s"
    for f line
  proof -
    obtain s' where "writeToDefaultDestination
          (line (doLog_message env (Logger_fns.tags this') lvl tgs format ps)) lvl True (d0 # ds) s
          = (Resolved, s')"
      and "\<exists>h \<in> set (take 2 (d0 # ds)). received s s' h
             (line (doLog_message env (Logger_fns.tags this') lvl tgs format ps))"
      using writeToDefaultDestination_writes [of lvl b ds s d0, OF upper writable] by blast
    then show ?thesis
      using always this' f formula by (simp add: doLog_fns_def)
  qed
  have many: "\<exists>s'. doLog_fns env this' lvl tgs format ps s = Inr (Resolved, s')
       \<and> (defaultText env \<in> set (Logger_fns.logFunctions this') \<longrightarrow>
            (\<exists>h \<in> set (take 2 (d0 # ds)). added s s' h
               (defaultText_messageText env
                  (doLog_message env (Logger_fns.tags this') lvl tgs format ps))))
       \<and> (defaultJson env \<in> set (Logger_fns.logFunctions this') \<longrightarrow>
            (\<exists>h \<in> set (take 2 (d0 # ds)). added s s' h
               (defaultJson_messageText env
                  (doLog_message env (Logger_fns.tags this') lvl tgs format ps))))"
    if always: "JString ''always'' \<in> set (concat_value [] tgs)"
      and this': "Logger_fns.level this' = thisLevel" "Logger_fns.destinations this' = d0 # ds"
      and built_in: "set (Logger_fns.logFunctions this') \<subseteq> {defaultText env, defaultJson env}"
      and writable: "ds \<noteq> [] \<or> isTTY (s d0) = None"
  proof -
    have "level_of (toUpperCase
        (Message.level (doLog_message env (Logger_fns.tags this') lvl tgs format ps))) = Some b"
      using upper by simp
    from callLogFunctions_built_in [where s = s and ?d0.0 = d0 and ds = ds and env = env
        and fs = "Logger_fns.logFunctions this'"
        and m = "doLog_message env (Logger_fns.tags this') lvl tgs format ps"
        and b = b, OF this built_in writable]
    obtain s' where "callLogFunctions (Logger_fns.logFunctions this')
          (doLog_message env (Logger_fns.tags this') lvl tgs format ps) True (d0 # ds) s
          = (replicate (length (Logger_fns.logFunctions this')) Resolved, s')"
      and "defaultText env \<in> set (Logger_fns.logFunctions this') \<longrightarrow>
            (\<exists>h \<in> set (take 2 (d0 # ds)). added s s' h
               (defaultText_messageText env
                  (doLog_message env (Logger_fns.tags this') lvl tgs format ps)))"
      and "defaultJson env \<in> set (Logger_fns.logFunctions this') \<longrightarrow>
            (\<exists>h \<in> set (take 2 (d0 # ds)). added s s' h
               (defaultJson_messageText env
                  (doLog_message env (Logger_fns.tags this') lvl tgs format ps)))"
      by blast
    then show ?thesis
      using always this' formula by (simp add: doLog_fns_def)
  qed
  show ?thesis
  proof (intro conjI impI)
    show "doLog_shouldBeLogged thisLevel lvl tgs
      = Inr (position a \<ge> position b \<or> JString ''always'' \<in> set (concat_value [] tgs))"
      by (rule formula)
  next
    assume "JString ''always'' \<in> set (concat_value [] tgs)"
      and "Logger.level this = thisLevel \<and> Logger.logFunction this = allDest0WarnDest1 env
        \<and> Logger.destinations this = d0 # ds"
    then show "\<exists>s'. doLog env this lvl tgs format ps s = Inr (Resolved, s')
       \<and> (\<exists>h \<in> set (take 2 (d0 # ds)). received s s' h
             (JSON_stringify (doLog_message env (Logger.tags this) lvl tgs format ps) @ EOL env))"
      using one by blast
  next
    assume "JString ''always'' \<in> set (concat_value [] tgs)"
      and "Logger_fns.level this' = thisLevel \<and> Logger_fns.destinations this' = d0 # ds
        \<and> (ds \<noteq> [] \<or> isTTY (s d0) = None)"
      and "Logger_fns.logFunctions this' = [defaultText env]"
    then show "\<exists>s'. doLog_fns env this' lvl tgs format ps s = Inr (Resolved, s')
       \<and> (\<exists>h \<in> set (take 2 (d0 # ds)). received s s' h
             (defaultText_messageText env
                (doLog_message env (Logger_fns.tags this') lvl tgs format ps)))"
      using several [of "defaultText env" "defaultText_messageText env"]
      by (simp add: defaultText_def)
  next
    assume "JString ''always'' \<in> set (concat_value [] tgs)"
      and "Logger_fns.level this' = thisLevel \<and> Logger_fns.destinations this' = d0 # ds
        \<and> (ds \<noteq> [] \<or> isTTY (s d0) = None)"
      and "Logger_fns.logFunctions this' = [defaultJson env]"
    then show "\<exists>s'. doLog_fns env this' lvl tgs format ps s = Inr (Resolved, s')
       \<and> (\<exists>h \<in> set (take 2 (d0 # ds)). received s s' h
             (defaultJson_messageText env
                (doLog_message env (Logger_fns.tags this') lvl tgs format ps)))"
      using several [of "defaultJson env" "defaultJson_messageText env"]
      by (simp add: defaultJson_def)
  next
    assume "JString ''always'' \<in> set (concat_value [] tgs)"
      and "Logger_fns.level this' = thisLevel \<and> Logger_fns.destinations this' = d0 # ds
        \<and> (ds \<noteq> [] \<or> isTTY (s d0) = None)"
      and "set (Logger_fns.logFunctions this') \<subseteq> {defaultText env, defaultJson env}"
    then show "\<exists>s'. doLog_fns env this' lvl tgs format ps s = Inr (Resolved, s')
       \<and> (defaultText env \<in> set (Logger_fns.logFunctions this') \<longrightarrow>
            (\<exists>h \<in> set (take 2 (d0 # ds)). added s s' h
               (defaultText_messageText env
                  (doLog_message env (Logger_fns.tags this') lvl tgs format ps))))
       \<and> (defaultJson env \<in> set (Logger_fns.logFunctions this') \<longrightarrow>
            (\<exists>h \<in> set (take 2 (d0 # ds)). added s s' h
               (defaultJson_messageText env
                  (doLog_message env (Logger_fns.tags this') lvl tgs format ps))))"
      using many by blast
  qed
qed

theorem always_in_call_tags_forces_logging_witness:
  "doLog_shouldBeLogged ''OFF'' ''DEBUG'' (JString ''always'') = Inr True
   \<and> (\<exists>s'. doLog example_env (example_logger ''OFF'' []) ''DEBUG'' (JString ''always'')
              (JString ''kept'') [] example_store = Inr (Resolved, s')
         \<and> (\<exists>h \<in> set (take 2 [process_stdout, process_stderr]). received example_store s' h
              (JSON_stringify (doLog_message example_env [] ''DEBUG'' (JString ''always'')
                 (JString ''kept'') []) @ EOL example_env)))
   \<and> (\<exists>s'. doLog_fns example_env
              (example_logger_fns ''OFF'' [] [defaultText example_env, defaultJson example_env])
              ''DEBUG'' (JString ''always'') (JString ''kept'') [] terminal_store
            = Inr (Resolved, s')
         \<and> (\<exists>h \<in> set (take 2 [process_stdout, process_stderr]). added terminal_store s' h
              (defaultText_messageText example_env
                 (doLog_message example_env [] ''DEBUG'' (JString ''always'')
                    (JString ''kept'') [])))
         \<and> (\<exists>h \<in> set (take 2 [process_stdout, process_stderr]). added terminal_store s' h
              (defaultJson_messageText example_env
                 (doLog_message example_env [] ''DEBUG'' (JString ''always'')
                    (JString ''kept'') []))))"
proof -
  note always = always_in_call_tags_forces_logging [where thisLevel = "''OFF''" and a = OFF
      and lvl = "''DEBUG''" and b = DEBUG and tgs = "JString ''always''"
      and env = example_env and ?d0.0 = process_stdout and ds = "[process_stderr]"
      and format = "JString ''kept''" and ps = "[]"]
  have "doLog_shouldBeLogged ''OFF'' ''DEBUG'' (JString ''always'') = Inr True
     \<and> (\<exists>s'. doLog example_env (example_logger ''OFF'' []) ''DEBUG'' (JString ''always'')
              (JString ''kept'') [] example_store = Inr (Resolved, s')
         \<and> (\<exists>h \<in> set (take 2 [process_stdout, process_stderr]). received example_store s' h
              (JSON_stringify (doLog_message example_env [] ''DEBUG'' (JString ''always'')
                 (JString ''kept'') []) @ EOL example_env)))"
    using always [where this = "example_logger ''OFF'' []" and s = example_store]
    by (simp add: concat_value_def example_logger_def)
  moreover have "\<exists>s'. doLog_fns example_env
              (example_logger_fns ''OFF'' [] [defaultText example_env, defaultJson example_env])
              ''DEBUG'' (JString ''always'') (JString ''kept'') [] terminal_store
            = Inr (Resolved, s')
         \<and> (\<exists>h \<in> set (take 2 [process_stdout, process_stderr]). added terminal_store s' h
              (defaultText_messageText example_env
                 (doLog_message example_env [] ''DEBUG'' (JString ''always'')
                    (JString ''kept'') [])))
         \<and> (\<exists>h \<in> set (take 2 [process_stdout, process_stderr]). added terminal_store s' h
              (defaultJson_messageText example_env
                 (doLog_message example_env [] ''DEBUG'' (JString ''always'')
                    (JString ''kept'') [])))"
    using always [where this' = "example_logger_fns ''OFF'' []
          [defaultText example_env, defaultJson example_env]" and s = terminal_store]
    by (simp add: concat_value_def example_logger_fns_def)
  ultimately show ?thesis by blast
qed

text \<open>
  The case left out above: a logger of the variant with several log functions whose only
  destination is a terminal. \<open>isTty\<close> is applied to the missing second destination, the log
  function rejects with a \<open>TypeError\<close>, and nothing is written.
\<close>

lemma single_destination_with_isTTY:
  "contents [process_stdout]
     (doLog_fns example_env
        ((example_logger_fns ''OFF'' [] [defaultText example_env])
           \<lparr>Logger_fns.destinations := [process_stdout]\<rparr>)
        ''DEBUG'' (JString ''always'') (JString ''kept'') [] terminal_store)
   = Inr (Rejected (TypeError ''Cannot use in operator to search for isTTY in undefined''),
          [[]])"
  by (simp add: contents_def doLog_fns_def doLog_shouldBeLogged_positions concat_value_def
      example_logger_fns_def defaultText_def writeToDefaultDestination_def isTty_fns_def
      isFirst_INFO at_def terminal_store_def Promise_all_def)

text \<open>
  C3 (as the specification words it) fails: a logger of level \<open>OFF\<close> created with the tag
  \<open>always\<close> writes nothing for a call without tags, although the merged tags of the message
  contain \<open>always\<close>.
\<close>

theorem always_in_logger_tags_is_ignored:
  "contents [process_stdout, process_stderr]
     (doLog example_env (example_logger ''OFF'' [''always'']) ''ERROR'' (JStrings [])
        (JString ''boom'') [] example_store)
   = Inr (Resolved, [[], []])
   \<and> Message.tags (doLog_message example_env [''always''] ''ERROR'' (JStrings [])
        (JString ''boom'') []) = [JString ''always'']"
  by (simp add: contents_def doLog_def doLog_shouldBeLogged_positions example_message_eq
      example_logger_def allDest0WarnDest1_not_logged example_store_def concat_value_def)


subsection \<open>The level \<open>OFF\<close>\<close>

text \<open>
  C4 (as the code has it). On a logger of level \<open>OFF\<close> a message of level \<open>ERROR\<close>, \<open>WARN\<close>,
  \<open>INFO\<close> or \<open>DEBUG\<close> without \<open>always\<close> among the tags of the call has \<open>shouldBeLogged\<close> false
  and the built-in log functions write nothing. A message dispatched with the level \<open>OFF\<close>
  itself has \<open>shouldBeLogged\<close> true on every logger, since every position is at least that of
  \<open>OFF\<close>.
\<close>

theorem OFF_logger_filters_OFF_message_passes:
  "(level_of (toUpperCase thisLevel) = Some OFF \<and> level_of lvl = Some b \<and> b \<noteq> OFF
      \<and> JString ''always'' \<notin> set (concat_value [] tgs) \<longrightarrow>
        doLog_shouldBeLogged thisLevel lvl tgs = Inr False
        \<and> (Logger.level this = thisLevel \<and> Logger.logFunction this = allDest0WarnDest1 env
             \<longrightarrow> doLog env this lvl tgs format ps s = Inr (Resolved, s))
        \<and> (Logger_fns.level this' = thisLevel
             \<and> set (Logger_fns.logFunctions this') \<subseteq> {defaultText env, defaultJson env}
             \<longrightarrow> doLog_fns env this' lvl tgs format ps s = Inr (Resolved, s)))
   \<and> (level_of (toUpperCase thisLevel) = Some a \<longrightarrow>
        doLog_shouldBeLogged thisLevel LogLevel_OFF tgs = Inr True)"
proof -
  have "position b > 0" if "b \<noteq> OFF"
    using that by (cases b) simp_all
  then show ?thesis
    by (auto simp: doLog_shouldBeLogged_positions doLog_filtered doLog_fns_filtered
        LogLevel_OFF_def)
qed

theorem OFF_logger_filters_OFF_message_passes_witness:
  "doLog_shouldBeLogged ''off'' ''ERROR'' (JStrings [''db'']) = Inr False
   \<and> doLog example_env (example_logger ''off'' []) ''ERROR'' (JStrings [''db''])
       (JString ''boom'') [] example_store = Inr (Resolved, example_store)
   \<and> doLog_shouldBeLogged ''off'' LogLevel_OFF (JStrings [''db'']) = Inr True"
  using OFF_logger_filters_OFF_message_passes [where thisLevel = "''off''" and a = OFF
      and lvl = "''ERROR''" and b = ERROR and tgs = "JStrings [''db'']"
      and this = "example_logger ''off'' []" and env = example_env
      and format = "JString ''boom''" and ps = "[]" and s = example_store]
  by (simp add: concat_value_def example_logger_def level_of_def toUpperCase_def toUpperChar_def)

text \<open>
  C4 (as the specification words it) fails: \<open>log("OFF", "x")\<close> on a logger of level \<open>INFO\<close> is
  written, to both destinations.
\<close>

theorem OFF_message_is_written:
  "contents [process_stdout, process_stderr]
     (log example_env (example_logger ''INFO'' []) (JString ''OFF'') (JString ''x'') []
        example_store)
   = Inr (Resolved,
       [[JSON_stringify \<lparr>isoDate = ''2016-05-01T15:35:19.997Z'', Message.level = ''OFF'',
           Message.tags = [], text = ''x'', stack = None\<rparr> @ [CHR 0x0A]],
        [JSON_stringify \<lparr>isoDate = ''2016-05-01T15:35:19.997Z'', Message.level = ''OFF'',
           Message.tags = [], text = ''x'', stack = None\<rparr> @ [CHR 0x0A]]])"
  by (simp add: contents_def log_def levelArgument_def indexOf_logLevelNames doLog_def
      doLog_shouldBeLogged_positions example_message_eq
      example_logger_def allDest0WarnDest1_two [where b = OFF] isTty_def example_store_def
      process_stdout_def process_stderr_def stream_write_def concat_value_def)

subsection \<open>Fan-out to the first two destinations\<close>

lemma isTty_variants:
  "isTty s (Some h) \<longleftrightarrow> isTTY (s h) = Some True"
  "isTty_fns s (Some h) = Inr (isTTY (s h) \<noteq> None)"
  "\<not> isTty s None"
  "\<exists>e. isTty_fns s None = Inl (TypeError e)"
  by (simp_all add: isTty_def isTty_fns_def)

lemma level_of_upper_ERROR_WARN:
  "l \<in> {''ERROR'', ''WARN''} \<Longrightarrow> \<exists>b. level_of (toUpperCase l) = Some b \<and> position b < 3"
  by auto

lemma level_of_upper_INFO_DEBUG:
  "l \<in> {''INFO'', ''DEBUG''} \<Longrightarrow> \<exists>b. level_of (toUpperCase l) = Some b \<and> \<not> position b < 3"
  by auto

lemma allDest0WarnDest1_both:
  assumes "Message.level m \<in> {''ERROR'', ''WARN''}" and "d0 \<noteq> d1"
    and "\<not> (isTty s (Some d0) \<and> isTty s (Some d1))"
  shows "allDest0WarnDest1 env m True (d0 # d1 # ds) s =
     (Resolved, stream_write d0 (JSON_stringify m @ EOL env)
                  (stream_write d1 (JSON_stringify m @ EOL env) s))"
  using level_of_upper_ERROR_WARN [OF assms(1)] assms(2,3)
  by (auto simp: allDest0WarnDest1_two)

lemma allDest0WarnDest1_secondary_only:
  assumes "Message.level m \<in> {''ERROR'', ''WARN''}" and "d0 \<noteq> d1"
    and "isTty s (Some d0)" and "isTty s (Some d1)"
  shows "allDest0WarnDest1 env m True (d0 # d1 # ds) s =
     (Resolved, stream_write d1 (JSON_stringify m @ EOL env) s)"
  using level_of_upper_ERROR_WARN [OF assms(1)] assms(2-)
  by (auto simp: allDest0WarnDest1_two)

lemma allDest0WarnDest1_primary_only:
  assumes "Message.level m \<in> {''INFO'', ''DEBUG''}"
  shows "allDest0WarnDest1 env m True (d0 # d1 # ds) s =
     (Resolved, stream_write d0 (JSON_stringify m @ EOL env) s)"
  using level_of_upper_INFO_DEBUG [OF assms(1)]
  by (auto simp: allDest0WarnDest1_two)

lemma writeToDefaultDestination_both:
  assumes "lvl \<in> {''ERROR'', ''WARN''}" and "d0 \<noteq> d1"
    and "\<not> (isTty_fns s (Some d0) = Inr True \<and> isTty_fns s (Some d1) = Inr True)"
  shows "writeToDefaultDestination line lvl True (d0 # d1 # ds) s =
     (Resolved, stream_write d0 line (stream_write d1 line s))"
  using level_of_upper_ERROR_WARN [OF assms(1)] assms(2,3)
  by (auto simp: writeToDefaultDestination_two)

lemma writeToDefaultDestination_secondary_only:
  assumes "lvl \<in> {''ERROR'', ''WARN''}" and "d0 \<noteq> d1"
    and "isTty_fns s (Some d0) = Inr True" and "isTty_fns s (Some d1) = Inr True"
  shows "writeToDefaultDestination line lvl True (d0 # d1 # ds) s =
     (Resolved, stream_write d1 line s)"
  using level_of_upper_ERROR_WARN [OF assms(1)] assms(2-)
  by (auto simp: writeToDefaultDestination_two)

lemma writeToDefaultDestination_primary_only:
  assumes "lvl \<in> {''INFO'', ''DEBUG''}"
  shows "writeToDefaultDestination line lvl True (d0 # d1 # ds) s =
     (Resolved, stream_write d0 line s)"
  using level_of_upper_INFO_DEBUG [OF assms(1)]
  by (auto simp: writeToDefaultDestination_two)

lemma writes_both_twice:
  "d0 \<noteq> d1 \<Longrightarrow>
     writes_both (Resolved, stream_write d0 line (stream_write d1 line s)) s d0 d1 line"
  by (simp add: writes_both_def received_def untouched_def stream_write_def)

lemma writes_only_once: "writes_only (Resolved, stream_write d line s) s d line"
  by (simp add: writes_only_def received_def untouched_def stream_write_def)

text \<open>
  The fan-out where the \<open>isTty\<close> of the variant takes neither of two distinct first
  destinations for a terminal: for \<open>allDest0WarnDest1\<close> neither has a true \<open>isTTY\<close>, for
  \<open>defaultText\<close> and \<open>defaultJson\<close> neither has an \<open>isTTY\<close> property at all. A built-in log
  function called with \<open>shouldBeLogged\<close> true then writes its line once to the second and once
  to the first destination when the level of the message is \<open>ERROR\<close> or \<open>WARN\<close>, and once to
  the first destination only when it is \<open>INFO\<close> or \<open>DEBUG\<close>; no other sink changes. Sinks that
  carry \<open>isTTY\<close> with the value \<open>false\<close> are treated further down in this subsection.
\<close>

theorem fan_out_to_distinct_non_terminals:
  assumes "d0 \<noteq> d1"
  shows "(\<not> isTty s (Some d0) \<and> \<not> isTty s (Some d1) \<longrightarrow>
           (Message.level m \<in> {''ERROR'', ''WARN''} \<longrightarrow>
              writes_both (allDest0WarnDest1 env m True (d0 # d1 # ds) s) s d0 d1
                (JSON_stringify m @ EOL env))
           \<and> (Message.level m \<in> {''INFO'', ''DEBUG''} \<longrightarrow>
              writes_only (allDest0WarnDest1 env m True (d0 # d1 # ds) s) s d0
                (JSON_stringify m @ EOL env)))
       \<and> (isTty_fns s (Some d0) = Inr False \<and> isTty_fns s (Some d1) = Inr False \<longrightarrow>
           (Message.level m \<in> {''ERROR'', ''WARN''} \<longrightarrow>
              writes_both (defaultText env m True (d0 # d1 # ds) s) s d0 d1
                (defaultText_messageText env m)
              \<and> writes_both (defaultJson env m True (d0 # d1 # ds) s) s d0 d1
                (defaultJson_messageText env m))
           \<and> (Message.level m \<in> {''INFO'', ''DEBUG''} \<longrightarrow>
              writes_only (defaultText env m True (d0 # d1 # ds) s) s d0
                (defaultText_messageText env m)
              \<and> writes_only (defaultJson env m True (d0 # d1 # ds) s) s d0
                (defaultJson_messageText env m)))"
proof (intro conjI impI)
  assume "\<not> isTty s (Some d0) \<and> \<not> isTty s (Some d1)"
    and "Message.level m \<in> {''ERROR'', ''WARN''}"
  then show "writes_both (allDest0WarnDest1 env m True (d0 # d1 # ds) s) s d0 d1
      (JSON_stringify m @ EOL env)"
    using assms by (simp add: allDest0WarnDest1_both writes_both_twice)
next
  assume "Message.level m \<in> {''INFO'', ''DEBUG''}"
  then show "writes_only (allDest0WarnDest1 env m True (d0 # d1 # ds) s) s d0
      (JSON_stringify m @ EOL env)"
    by (simp add: allDest0WarnDest1_primary_only writes_only_once)
next
  assume "isTty_fns s (Some d0) = Inr False \<and> isTty_fns s (Some d1) = Inr False"
    and "Message.level m \<in> {''ERROR'', ''WARN''}"
  then have both: "writeToDefaultDestination line (Message.level m) True (d0 # d1 # ds) s =
      (Resolved, stream_write d0 line (stream_write d1 line s))" for line
    using assms by (simp add: writeToDefaultDestination_both)
  show "writes_both (defaultText env m True (d0 # d1 # ds) s) s d0 d1
      (defaultText_messageText env m)"
    using assms by (simp add: defaultText_def both writes_both_twice)
  show "writes_both (defaultJson env m True (d0 # d1 # ds) s) s d0 d1
      (defaultJson_messageText env m)"
    using assms by (simp add: defaultJson_def both writes_both_twice)
next
  assume "Message.level m \<in> {''INFO'', ''DEBUG''}"
  then have primary: "writeToDefaultDestination line (Message.level m) True (d0 # d1 # ds) s =
      (Resolved, stream_write d0 line s)" for line
    by (simp add: writeToDefaultDestination_primary_only)
  show "writes_only (defaultText env m True (d0 # d1 # ds) s) s d0
      (defaultText_messageText env m)"
    by (simp add: defaultText_def primary writes_only_once)
  show "writes_only (defaultJson env m True (d0 # d1 # ds) s) s d0
      (defaultJson_messageText env m)"
    by (simp add: defaultJson_def primary writes_only_once)
qed

theorem fan_out_to_distinct_non_terminals_witness:
  "writes_both
     (allDest0WarnDest1 example_env
        \<lparr>isoDate = ''2016-05-01T15:35:19.997Z'', Message.level = ''WARN'', Message.tags = [],
         text = ''low disk'', stack = None\<rparr> True [process_stdout, process_stderr]
        example_store)
     example_store process_stdout process_stderr
     (JSON_stringify
        \<lparr>isoDate = ''2016-05-01T15:35:19.997Z'', Message.level = ''WARN'', Message.tags = [],
         text = ''low disk'', stack = None\<rparr> @ EOL example_env)
   \<and> writes_both
     (defaultText example_env
        \<lparr>isoDate = ''2016-05-01T15:35:19.997Z'', Message.level = ''WARN'', Message.tags = [],
         text = ''low disk'', stack = None\<rparr> True [process_stdout, process_stderr]
        example_store)
     example_store process_stdout process_stderr
     (defaultText_messageText example_env
        \<lparr>isoDate = ''2016-05-01T15:35:19.997Z'', Message.level = ''WARN'', Message.tags = [],
         text = ''low disk'', stack = None\<rparr>)"
  using fan_out_to_distinct_non_terminals [where ?d0.0 = process_stdout
      and ?d1.0 = process_stderr and s = example_store and env = example_env and ds = "[]"
      and m = "\<lparr>isoDate = ''2016-05-01T15:35:19.997Z'', Message.level = ''WARN'',
                Message.tags = [], text = ''low disk'', stack = None\<rparr>"]
  by (simp add: process_stdout_def process_stderr_def isTty_def isTty_fns_def example_store_def)


text \<open>
  C5. The specification promises a copy on each of two distinct destinations that are no
  interactive terminals when the level of the message is \<open>ERROR\<close> or \<open>WARN\<close>. The variant with
  several log functions takes a sink for a terminal as soon as it has an \<open>isTTY\<close> property,
  so for two distinct sinks that carry \<open>isTTY\<close> with the value \<open>false\<close> \<open>defaultText\<close> and
  \<open>defaultJson\<close> write one copy only, to the second destination, and leave the first
  untouched. \<open>allDest0WarnDest1\<close>, whose \<open>isTty\<close> reads the value of the property, takes
  neither sink for a terminal and writes both copies.
\<close>

theorem isTTY_false_sinks_get_one_copy:
  assumes "d0 \<noteq> d1" and "isTTY (s d0) = Some False" and "isTTY (s d1) = Some False"
    and "Message.level m \<in> {''ERROR'', ''WARN''}"
  shows "writes_only (defaultText env m True (d0 # d1 # ds) s) s d1
           (defaultText_messageText env m)
       \<and> untouched s (snd (defaultText env m True (d0 # d1 # ds) s)) d0
       \<and> writes_only (defaultJson env m True (d0 # d1 # ds) s) s d1
           (defaultJson_messageText env m)
       \<and> untouched s (snd (defaultJson env m True (d0 # d1 # ds) s)) d0
       \<and> \<not> isTty s (Some d0) \<and> \<not> isTty s (Some d1)
       \<and> writes_both (allDest0WarnDest1 env m True (d0 # d1 # ds) s) s d0 d1
           (JSON_stringify m @ EOL env)"
proof -
  have "isTty_fns s (Some d0) = Inr True" and "isTty_fns s (Some d1) = Inr True"
    using assms(2,3) by (simp_all add: isTty_fns_def)
  then have secondary: "writeToDefaultDestination line (Message.level m) True (d0 # d1 # ds) s =
      (Resolved, stream_write d1 line s)" for line
    using assms(1,4) by (simp add: writeToDefaultDestination_secondary_only)
  have skipped: "untouched s (stream_write d1 line s) d0" for line
    using assms(1) by (simp add: untouched_def stream_write_def)
  have no_terminal: "\<not> isTty s (Some d0)" "\<not> isTty s (Some d1)"
    using assms(2,3) by (simp_all add: isTty_def)
  then have "writes_both (allDest0WarnDest1 env m True (d0 # d1 # ds) s) s d0 d1
      (JSON_stringify m @ EOL env)"
    using assms(1,4) by (simp add: allDest0WarnDest1_both writes_both_twice)
  then show ?thesis
    using no_terminal
    by (simp add: defaultText_def defaultJson_def secondary writes_only_once skipped)
qed

theorem isTTY_false_sinks_get_one_copy_witness:
  "contents [process_stdout, process_stderr]
     (Inr (defaultJson example_env
        \<lparr>isoDate = ''2016-05-01T15:35:19.997Z'', Message.level = ''ERROR'', Message.tags = [],
         text = ''boom'', stack = None\<rparr> True [process_stdout, process_stderr]
        isTTY_false_store))
   = Inr (Resolved, [[], [defaultJson_messageText example_env
        \<lparr>isoDate = ''2016-05-01T15:35:19.997Z'', Message.level = ''ERROR'', Message.tags = [],
         text = ''boom'', stack = None\<rparr>]])
   \<and> contents [process_stdout, process_stderr]
     (Inr (allDest0WarnDest1 example_env
        \<lparr>isoDate = ''2016-05-01T15:35:19.997Z'', Message.level = ''ERROR'', Message.tags = [],
         text = ''boom'', stack = None\<rparr> True [process_stdout, process_stderr]
        isTTY_false_store))
   = Inr (Resolved,
       [[JSON_stringify
          \<lparr>isoDate = ''2016-05-01T15:35:19.997Z'', Message.level = ''ERROR'', Message.tags = [],
           text = ''boom'', stack = None\<rparr> @ EOL example_env],
        [JSON_stringify
          \<lparr>isoDate = ''2016-05-01T15:35:19.997Z'', Message.level = ''ERROR'', Message.tags = [],
           text = ''boom'', stack = None\<rparr> @ EOL example_env]])"
proof -
  define m where "m = \<lparr>isoDate = ''2016-05-01T15:35:19.997Z'', Message.level = ''ERROR'',
    Message.tags = [], text = ''boom'', stack = None\<rparr>"
  have one_copy:
      "writes_only (defaultJson example_env m True [process_stdout, process_stderr]
          isTTY_false_store) isTTY_false_store process_stderr
          (defaultJson_messageText example_env m)"
    and both_copies:
      "writes_both (allDest0WarnDest1 example_env m True [process_stdout, process_stderr]
          isTTY_false_store) isTTY_false_store process_stdout process_stderr
          (JSON_stringify m @ EOL example_env)"
    using isTTY_false_sinks_get_one_copy [where ?d0.0 = process_stdout
        and ?d1.0 = process_stderr and s = isTTY_false_store and env = example_env
        and ds = "[]" and m = m]
    by (simp_all add: process_stdout_def process_stderr_def isTTY_false_store_def m_def)
  have first: "contents [process_stdout, process_stderr]
      (Inr (defaultJson example_env m True [process_stdout, process_stderr] isTTY_false_store))
      = Inr (Resolved, [[], [defaultJson_messageText example_env m]])"
    using one_copy
    by (cases "defaultJson example_env m True [process_stdout, process_stderr]
          isTTY_false_store")
      (simp add: writes_only_def received_def untouched_def contents_def
        process_stdout_def process_stderr_def isTTY_false_store_def)
  have second: "contents [process_stdout, process_stderr]
      (Inr (allDest0WarnDest1 example_env m True [process_stdout, process_stderr]
          isTTY_false_store))
      = Inr (Resolved, [[JSON_stringify m @ EOL example_env],
                         [JSON_stringify m @ EOL example_env]])"
    using both_copies
    by (cases "allDest0WarnDest1 example_env m True [process_stdout, process_stderr]
          isTTY_false_store")
      (simp add: writes_both_def received_def contents_def isTTY_false_store_def)
  show ?thesis
    using first second by (simp add: m_def)
qed

text \<open>
  Printing once, with terminals as the \<open>isTty\<close> of the variant reads them: a true \<open>isTTY\<close>
  for \<open>allDest0WarnDest1\<close>, an \<open>isTTY\<close> property of any value for \<open>defaultText\<close> and
  \<open>defaultJson\<close>. With two distinct first destinations that both are terminals in that
  reading, a message of level \<open>ERROR\<close> or \<open>WARN\<close> is written once to the second destination
  and the first is left as it was. When the two are distinct and one of them is no terminal
  in that reading, the first destination receives the line, whatever the level of the
  message. Sinks whose \<open>isTTY\<close> property is present without being true are treated further
  down in this subsection.
\<close>

theorem terminals_print_once:
  assumes "d0 \<noteq> d1"
  shows "(isTty s (Some d0) \<and> isTty s (Some d1) \<and> Message.level m \<in> {''ERROR'', ''WARN''}
            \<longrightarrow> writes_only (allDest0WarnDest1 env m True (d0 # d1 # ds) s) s d1
                  (JSON_stringify m @ EOL env))
       \<and> (\<not> (isTty s (Some d0) \<and> isTty s (Some d1)) \<and> level_of (Message.level m) = Some b
            \<longrightarrow> received s (snd (allDest0WarnDest1 env m True (d0 # d1 # ds) s)) d0
                  (JSON_stringify m @ EOL env))
       \<and> (isTty_fns s (Some d0) = Inr True \<and> isTty_fns s (Some d1) = Inr True
            \<and> Message.level m \<in> {''ERROR'', ''WARN''}
            \<longrightarrow> writes_only (defaultText env m True (d0 # d1 # ds) s) s d1
                  (defaultText_messageText env m)
              \<and> writes_only (defaultJson env m True (d0 # d1 # ds) s) s d1
                  (defaultJson_messageText env m))
       \<and> (\<not> (isTty_fns s (Some d0) = Inr True \<and> isTty_fns s (Some d1) = Inr True)
            \<and> level_of (Message.level m) = Some b
            \<longrightarrow> received s (snd (defaultText env m True (d0 # d1 # ds) s)) d0
                  (defaultText_messageText env m)
              \<and> received s (snd (defaultJson env m True (d0 # d1 # ds) s)) d0
                  (defaultJson_messageText env m))"
proof (intro conjI impI)
  assume "isTty s (Some d0) \<and> isTty s (Some d1) \<and> Message.level m \<in> {''ERROR'', ''WARN''}"
  then show "writes_only (allDest0WarnDest1 env m True (d0 # d1 # ds) s) s d1
      (JSON_stringify m @ EOL env)"
    using assms by (simp add: allDest0WarnDest1_secondary_only writes_only_once)
next
  assume "\<not> (isTty s (Some d0) \<and> isTty s (Some d1)) \<and> level_of (Message.level m) = Some b"
  then show "received s (snd (allDest0WarnDest1 env m True (d0 # d1 # ds) s)) d0
      (JSON_stringify m @ EOL env)"
    using assms
    by (auto simp: allDest0WarnDest1_two [OF toUpperCase_level_of] received_def stream_write_def)
next
  assume "isTty_fns s (Some d0) = Inr True \<and> isTty_fns s (Some d1) = Inr True
      \<and> Message.level m \<in> {''ERROR'', ''WARN''}"
  then have secondary: "writeToDefaultDestination line (Message.level m) True (d0 # d1 # ds) s =
      (Resolved, stream_write d1 line s)" for line
    using assms by (simp add: writeToDefaultDestination_secondary_only)
  show "writes_only (defaultText env m True (d0 # d1 # ds) s) s d1
      (defaultText_messageText env m)"
    by (simp add: defaultText_def secondary writes_only_once)
  show "writes_only (defaultJson env m True (d0 # d1 # ds) s) s d1
      (defaultJson_messageText env m)"
    by (simp add: defaultJson_def secondary writes_only_once)
next
  assume *: "\<not> (isTty_fns s (Some d0) = Inr True \<and> isTty_fns s (Some d1) = Inr True)
      \<and> level_of (Message.level m) = Some b"
  then have primary: "received s
      (snd (writeToDefaultDestination line (Message.level m) True (d0 # d1 # ds) s)) d0 line"
    for line
    using assms
    by (auto simp: writeToDefaultDestination_two [OF toUpperCase_level_of] received_def
        stream_write_def)
  show "received s (snd (defaultText env m True (d0 # d1 # ds) s)) d0
      (defaultText_messageText env m)"
    by (simp add: defaultText_def primary)
  show "received s (snd (defaultJson env m True (d0 # d1 # ds) s)) d0
      (defaultJson_messageText env m)"
    by (simp add: defaultJson_def primary)
qed

theorem terminals_print_once_witness:
  "writes_only
     (allDest0WarnDest1 example_env
        \<lparr>isoDate = ''2016-05-01T15:35:19.997Z'', Message.level = ''ERROR'', Message.tags = [],
         text = ''boom'', stack = None\<rparr> True [process_stdout, process_stderr]
        terminal_store)
     terminal_store process_stderr
     (JSON_stringify
        \<lparr>isoDate = ''2016-05-01T15:35:19.997Z'', Message.level = ''ERROR'', Message.tags = [],
         text = ''boom'', stack = None\<rparr> @ EOL example_env)
   \<and> received example_store
       (snd (allDest0WarnDest1 example_env
          \<lparr>isoDate = ''2016-05-01T15:35:19.997Z'', Message.level = ''ERROR'', Message.tags = [],
           text = ''boom'', stack = None\<rparr> True [process_stdout, process_stderr]
          example_store))
       process_stdout
       (JSON_stringify
          \<lparr>isoDate = ''2016-05-01T15:35:19.997Z'', Message.level = ''ERROR'', Message.tags = [],
           text = ''boom'', stack = None\<rparr> @ EOL example_env)"
  using terminals_print_once [where ?d0.0 = process_stdout
      and ?d1.0 = process_stderr and s = terminal_store and env = example_env and ds = "[]"
      and m = "\<lparr>isoDate = ''2016-05-01T15:35:19.997Z'', Message.level = ''ERROR'',
                Message.tags = [], text = ''boom'', stack = None\<rparr>"]
    terminals_print_once [where ?d0.0 = process_stdout
      and ?d1.0 = process_stderr and s = example_store and env = example_env and ds = "[]"
      and b = ERROR
      and m = "\<lparr>isoDate = ''2016-05-01T15:35:19.997Z'', Message.level = ''ERROR'',
                Message.tags = [], text = ''boom'', stack = None\<rparr>"]
  by (simp add: process_stdout_def process_stderr_def isTty_def terminal_store_def
      example_store_def)

text \<open>
  C6. The specification lets the first destination be skipped only when both sinks are
  interactive terminals, never when either is not. In the variant with several log functions
  the skip follows the presence of the \<open>isTTY\<close> property instead of its value: with two
  distinct first destinations that both have the property, at least one of them not with the
  value \<open>true\<close>, \<open>defaultText\<close> and \<open>defaultJson\<close> write a message of level \<open>ERROR\<close> or \<open>WARN\<close>
  to the second destination and leave the first untouched. \<open>allDest0WarnDest1\<close>, whose
  \<open>isTty\<close> reads the value, writes to the first destination for the same sinks.
\<close>

theorem first_destination_skipped_beside_non_terminal:
  assumes "d0 \<noteq> d1" and "isTTY (s d0) \<noteq> None" and "isTTY (s d1) \<noteq> None"
    and "isTTY (s d0) \<noteq> Some True \<or> isTTY (s d1) \<noteq> Some True"
    and "Message.level m \<in> {''ERROR'', ''WARN''}"
  shows "untouched s (snd (defaultText env m True (d0 # d1 # ds) s)) d0
       \<and> received s (snd (defaultText env m True (d0 # d1 # ds) s)) d1
           (defaultText_messageText env m)
       \<and> untouched s (snd (defaultJson env m True (d0 # d1 # ds) s)) d0
       \<and> received s (snd (defaultJson env m True (d0 # d1 # ds) s)) d1
           (defaultJson_messageText env m)
       \<and> \<not> (isTty s (Some d0) \<and> isTty s (Some d1))
       \<and> received s (snd (allDest0WarnDest1 env m True (d0 # d1 # ds) s)) d0
           (JSON_stringify m @ EOL env)"
proof -
  have "isTty_fns s (Some d0) = Inr True" and "isTty_fns s (Some d1) = Inr True"
    using assms(2,3) by (simp_all add: isTty_fns_def)
  then have secondary: "writeToDefaultDestination line (Message.level m) True (d0 # d1 # ds) s =
      (Resolved, stream_write d1 line s)" for line
    using assms(1,5) by (simp add: writeToDefaultDestination_secondary_only)
  have skipped: "untouched s (stream_write d1 line s) d0"
    and written: "received s (stream_write d1 line s) d1 line" for line
    using assms(1) by (simp_all add: untouched_def received_def stream_write_def)
  have not_both: "\<not> (isTty s (Some d0) \<and> isTty s (Some d1))"
    using assms(4) by (auto simp: isTty_def)
  then have "allDest0WarnDest1 env m True (d0 # d1 # ds) s =
      (Resolved, stream_write d0 (JSON_stringify m @ EOL env)
                   (stream_write d1 (JSON_stringify m @ EOL env) s))"
    using assms(1,5) by (simp add: allDest0WarnDest1_both)
  then have "received s (snd (allDest0WarnDest1 env m True (d0 # d1 # ds) s)) d0
      (JSON_stringify m @ EOL env)"
    using assms(1) by (simp add: received_def stream_write_def)
  then show ?thesis
    using not_both by (simp add: defaultText_def defaultJson_def secondary skipped written)
qed

theorem first_destination_skipped_beside_non_terminal_witness:
  "contents [process_stdout, process_stderr]
     (Inr (defaultText example_env
        \<lparr>isoDate = ''2016-05-01T15:35:19.997Z'', Message.level = ''WARN'', Message.tags = [],
         text = ''low disk'', stack = None\<rparr> True [process_stdout, process_stderr]
        (terminal_store (process_stderr := isTTY_false_store process_stderr))))
   = Inr (Resolved, [[], [defaultText_messageText example_env
        \<lparr>isoDate = ''2016-05-01T15:35:19.997Z'', Message.level = ''WARN'', Message.tags = [],
         text = ''low disk'', stack = None\<rparr>]])
   \<and> isTTY ((terminal_store (process_stderr := isTTY_false_store process_stderr))
        process_stdout) = Some True
   \<and> isTTY ((terminal_store (process_stderr := isTTY_false_store process_stderr))
        process_stderr) = Some False"
proof -
  define m where "m = \<lparr>isoDate = ''2016-05-01T15:35:19.997Z'', Message.level = ''WARN'',
    Message.tags = [], text = ''low disk'', stack = None\<rparr>"
  define s where "s = terminal_store (process_stderr := isTTY_false_store process_stderr)"
  have flags: "isTTY (s process_stdout) = Some True" "isTTY (s process_stderr) = Some False"
    and empty: "written (s process_stdout) = []" "written (s process_stderr) = []"
    by (simp_all add: s_def process_stdout_def process_stderr_def terminal_store_def
        isTTY_false_store_def)
  have distinct: "process_stdout \<noteq> process_stderr"
    by (simp add: process_stdout_def process_stderr_def)
  have "untouched s
        (snd (defaultText example_env m True [process_stdout, process_stderr] s))
        process_stdout
      \<and> received s (snd (defaultText example_env m True [process_stdout, process_stderr] s))
        process_stderr (defaultText_messageText example_env m)"
    using first_destination_skipped_beside_non_terminal [where ?d0.0 = process_stdout
        and ?d1.0 = process_stderr and s = s and env = example_env and ds = "[]" and m = m,
        OF distinct]
    by (simp add: flags m_def)
  moreover have "fst (defaultText example_env m True [process_stdout, process_stderr] s)
      = Resolved"
    using distinct
    by (simp add: defaultText_def m_def writeToDefaultDestination_secondary_only isTty_fns_def
        flags)
  ultimately have "contents [process_stdout, process_stderr]
      (Inr (defaultText example_env m True [process_stdout, process_stderr] s))
      = Inr (Resolved, [[], [defaultText_messageText example_env m]])"
    using empty
    by (cases "defaultText example_env m True [process_stdout, process_stderr] s")
      (simp add: received_def untouched_def contents_def)
  then show ?thesis
    using flags by (simp add: m_def s_def)
qed

subsection \<open>Registering log functions by name\<close>

lemma setLogFunctions_defaultText:
  "setLogFunctions env ld [LfString ''defaultText''] [] = Inr [defaultText env]"
  by simp

lemma indexOf_colon_absent:
  "CHR '':'' \<notin> set name \<Longrightarrow> tryParseCustomLogFnPath ld name = Inr None"
  by (simp add: tryParseCustomLogFnPath_def indexOf_absent)

lemma setLogFunctions_unknown_name:
  assumes "name \<noteq> ''defaultText''" and "name \<noteq> ''defaultJson''" and "CHR '':'' \<notin> set name"
  shows "setLogFunctions env ld (LfString name # rest) acc = Inl (invalidLogFunction name)"
  using assms by (simp add: indexOf_colon_absent)

lemma setLogFunction_unknown_name:
  "name \<noteq> ''allDest0WarnDest1'' \<Longrightarrow> \<exists>msg.
     setLogFunction (logFunctions_map env) (LfString name) = Inl (Error msg)"
  by (simp add: setLogFunction_def logFunctions_map_def)

lemma example_text_line:
  "defaultText_messageText example_env
     \<lparr>isoDate = ''2016-05-01T15:35:19.997Z'', Message.level = ''INFO'', Message.tags = [],
      text = ''hello'', stack = None\<rparr>
   = ''2016-05-01T15:35:19.997Z INFO  [] - hello'' @ [CHR 0x0A]"
  by (simp add: defaultText_messageText_def)

lemma example_json_line:
  "defaultJson_messageText example_env
     \<lparr>isoDate = ''2016-05-01T15:35:19.997Z'', Message.level = ''INFO'', Message.tags = [],
      text = ''hello'', stack = None\<rparr>
   = ''{'' @ [CHR 0x22] @ ''isoDate'' @ [CHR 0x22] @ '':'' @ [CHR 0x22]
       @ ''2016-05-01T15:35:19.997Z'' @ [CHR 0x22] @ '','' @ [CHR 0x22] @ ''level'' @ [CHR 0x22]
       @ '':'' @ [CHR 0x22] @ ''INFO'' @ [CHR 0x22] @ '','' @ [CHR 0x22] @ ''tags'' @ [CHR 0x22]
       @ '':[],'' @ [CHR 0x22] @ ''text'' @ [CHR 0x22] @ '':'' @ [CHR 0x22] @ ''hello''
       @ [CHR 0x22] @ ''}'' @ [CHR 0x0A]"
  by (simp add: defaultJson_messageText_def JSON_stringify_def JSON_quote_def quoteChar_def)

text \<open>
  C7. The code at the name \<open>defaultJson\<close>: the constructor registers
  \<open>LogFunction.defaultText\<close>, and an \<open>INFO\<close> message dispatched on the logger so made is
  written as the text line, not as the JSON object.
\<close>

theorem defaultJson_name_registers_defaultText:
  "Logger_fns_new env ld
     \<lparr>LoggerOptions_fns.level = None, LoggerOptions_fns.destinations = None,
      LoggerOptions_fns.logFunctions = Some [LfString ''defaultJson'']\<rparr> tgs w
   = Inr (\<lparr>Logger_fns.level = ''DEBUG'', Logger_fns.tags = tgs,
           Logger_fns.destinations = [process_stdout, process_stderr],
           Logger_fns.logFunctions = [defaultText env]\<rparr>,
          w\<lparr>Logger_instance := Some
             \<lparr>Logger_fns.level = ''DEBUG'', Logger_fns.tags = tgs,
              Logger_fns.destinations = [process_stdout, process_stderr],
              Logger_fns.logFunctions = [defaultText env]\<rparr>\<rparr>)
   \<and> contents [process_stdout, process_stderr]
        (doLog_fns example_env
           \<lparr>Logger_fns.level = ''DEBUG'', Logger_fns.tags = [],
            Logger_fns.destinations = [process_stdout, process_stderr],
            Logger_fns.logFunctions = [defaultText example_env]\<rparr>
           ''INFO'' (JStrings []) (JString ''hello'') [] example_store)
      = Inr (Resolved, [[''2016-05-01T15:35:19.997Z INFO  [] - hello'' @ [CHR 0x0A]], []])"
  by (simp add: Logger_fns_new_def defaultOptions_fns_def checkLoglevel_def
      indexOf_logLevelNames LogLevel_DEBUG_def contents_def doLog_fns_def
      doLog_shouldBeLogged_positions example_message_eq [where ts = "[]", simplified]
      defaultText_def writeToDefaultDestination_primary_only example_text_line
      stream_write_def example_store_def process_stdout_def process_stderr_def concat_value_def
      Let_def)

subsection \<open>Creation after the first logger\<close>

lemma setDestinations_streams:
  "setDestinations (map DestStream hs) acc w =
     (if \<forall>h \<in> set hs. instanceofWritable (streams w h) then Inr (acc @ hs, w)
      else Inl (unexpectedDestination ''object''))"
  by (induction hs arbitrary: acc) auto

lemma Logger_new_getOptions:
  "Logger_new registry (fst (getOptions inst)) tgs w =
     (case checkLoglevel (Logger.level inst) of
        Inl e \<Rightarrow> Inl e
      | Inr _ \<Rightarrow>
          if \<forall>h \<in> set (Logger.destinations inst). instanceofWritable (streams w h)
          then Inr (inst\<lparr>Logger.tags := tgs\<rparr>,
                    w\<lparr>Logger_instance := Some (inst\<lparr>Logger.tags := tgs\<rparr>)\<rparr>)
          else Inl (unexpectedDestination ''object''))"
  by (cases inst)
    (simp add: Logger_new_def getOptions_def setDestinations_streams setLogFunction_def Let_def
      split: sum.splits)

lemma Logger_new_sets_instance:
  "Logger_new registry options tgs w = Inr (this, w') \<Longrightarrow> Logger_instance w' = Some this"
  by (auto simp: Logger_new_def Let_def split: sum.splits prod.splits)

lemma setDestinations_instances:
  assumes "setDestinations dests acc w = Inr (hs, w')"
    and "\<forall>h \<in> set acc. instanceofWritable (streams w h)"
    and "instanceofWritable (streams w process_stdout)"
    and "instanceofWritable (streams w process_stderr)"
  shows "(\<forall>h \<in> set hs. instanceofWritable (streams w' h))
       \<and> Logger_instance w' = Logger_instance w"
  using assms
proof (induction dests arbitrary: acc w)
  case Nil
  then show ?case by simp
next
  case (Cons d rest)
  show ?case
  proof (cases d)
    case (DestString dest)
    show ?thesis
    proof (cases "dest = ''stdout'' \<or> dest = ''stderr''")
      case True
      then show ?thesis
        using Cons.prems DestString
          Cons.IH [of "acc @ [process_stdout]" w] Cons.IH [of "acc @ [process_stderr]" w]
        by (auto split: if_splits)
    next
      case False
      let ?h = "nextHandle w"
      let ?w = "w\<lparr>streams := (streams w)(nextHandle w :=
            \<lparr>isTTY = None, instanceofWritable = True, written = []\<rparr>),
          nextHandle := Suc (nextHandle w)\<rparr>"
      have "setDestinations rest (acc @ [?h]) ?w = Inr (hs, w')"
        using Cons.prems(1) False DestString by (simp add: createWriteStream_def)
      moreover have "\<forall>h \<in> set (acc @ [?h]). instanceofWritable (streams ?w h)"
        using Cons.prems(2) by simp
      moreover have "instanceofWritable (streams ?w process_stdout)"
        "instanceofWritable (streams ?w process_stderr)"
        using Cons.prems(3,4) by simp_all
      ultimately have "(\<forall>h \<in> set hs. instanceofWritable (streams w' h))
          \<and> Logger_instance w' = Logger_instance ?w"
        by (rule Cons.IH)
      then show ?thesis by simp
    qed
  next
    case (DestStream h)
    then show ?thesis
      using Cons.prems Cons.IH [of "acc @ [h]" w] by (auto split: if_splits)
  next
    case (DestOther ty)
    then show ?thesis
      using Cons.prems by simp
  qed
qed

text \<open>
  A logger that the constructor has returned can be cloned, when the standard streams are
  instances of \<open>stream.Writable\<close>: the creation that follows returns it with the new tags,
  whatever options that creation is given.
\<close>

lemma creation_after_construction:
  assumes "Logger_new registry options tgs w = Inr (this, w')"
    and "instanceofWritable (streams w process_stdout)"
    and "instanceofWritable (streams w process_stderr)"
  shows "createFromArguments env registry options' tgs' w'
     = Inr (this\<lparr>Logger.tags := getCallerFilename env # tgs'\<rparr>,
            w'\<lparr>Logger_instance := Some (this\<lparr>Logger.tags := getCallerFilename env # tgs'\<rparr>)\<rparr>)"
proof -
  obtain lvl dests lf hs w1 f where
    valid: "checkLoglevel lvl = Inr ()"
    and dests: "setDestinations dests [] w = Inr (hs, w1)"
    and this_eq: "this = \<lparr>Logger.level = lvl, Logger.tags = tgs, Logger.destinations = hs,
        Logger.logFunction = f\<rparr>"
    and w': "w' = w1\<lparr>Logger_instance := Some this\<rparr>"
    using assms(1)
    by (auto simp: Logger_new_def Let_def split: sum.splits prod.splits)
  have "\<forall>h \<in> set hs. instanceofWritable (streams w1 h)"
    using setDestinations_instances [OF dests] assms(2,3) by simp
  then have "\<forall>h \<in> set (Logger.destinations this). instanceofWritable (streams w' h)"
    by (simp add: this_eq w')
  moreover have "checkLoglevel (Logger.level this) = Inr ()"
    using valid by (simp add: this_eq)
  moreover have "Logger_instance w' = Some this"
    by (simp add: w')
  ultimately show ?thesis
    by (simp add: createFromArguments_def Logger_new_getOptions Let_def)
qed

text \<open>
  C9. When \<open>Logger.instance\<close> is set, \<open>createFromArguments\<close> and \<open>createFromConfigFile\<close> do
  not read their options (nor the configuration file): both return what the constructor makes
  of the options of the instance. Whenever that construction returns a logger, it is the
  instance with the new tags (the caller's file name, then the given tags): level,
  destinations and log function are the instance's, and it becomes the new instance. The
  construction does return when the level of the instance is a level name and its
  destinations are instances of \<open>stream.Writable\<close> or \<open>stream.Transform\<close>.
\<close>

theorem later_creation_clones_instance:
  assumes "Logger_instance w = Some inst"
  shows "createFromArguments env registry options tgs w
           = Logger_new registry (fst (getOptions inst)) (getCallerFilename env # tgs) w
       \<and> createFromConfigFile env registry parsed tgs w
           = Logger_new registry (fst (getOptions inst)) (getCallerFilename env # tgs) w
       \<and> (\<forall>this w'. createFromArguments env registry options tgs w = Inr (this, w') \<longrightarrow>
             this = inst\<lparr>Logger.tags := getCallerFilename env # tgs\<rparr>
             \<and> w' = w\<lparr>Logger_instance := Some this\<rparr>)
       \<and> (checkLoglevel (Logger.level inst) = Inr ()
            \<and> (\<forall>h \<in> set (Logger.destinations inst). instanceofWritable (streams w h)) \<longrightarrow>
             createFromArguments env registry options tgs w
               = Inr (inst\<lparr>Logger.tags := getCallerFilename env # tgs\<rparr>,
                      w\<lparr>Logger_instance :=
                           Some (inst\<lparr>Logger.tags := getCallerFilename env # tgs\<rparr>)\<rparr>))"
proof -
  have from_args: "createFromArguments env registry options tgs w
      = Logger_new registry (fst (getOptions inst)) (getCallerFilename env # tgs) w"
    using assms by (simp add: createFromArguments_def)
  have from_file: "createFromConfigFile env registry parsed tgs w
      = Logger_new registry (fst (getOptions inst)) (getCallerFilename env # tgs) w"
    using assms by (simp add: createFromConfigFile_def)
  have cloned: "this = inst\<lparr>Logger.tags := getCallerFilename env # tgs\<rparr>
      \<and> w' = w\<lparr>Logger_instance := Some this\<rparr>"
    if "Logger_new registry (fst (getOptions inst)) (getCallerFilename env # tgs) w
          = Inr (this, w')" for this w'
  proof (cases "checkLoglevel (Logger.level inst)")
    case (Inl e)
    then show ?thesis
      using that by (simp add: Logger_new_getOptions)
  next
    case (Inr u)
    then show ?thesis
      using that by (auto simp: Logger_new_getOptions split: if_splits)
  qed
  have returns: "Logger_new registry (fst (getOptions inst)) (getCallerFilename env # tgs) w
      = Inr (inst\<lparr>Logger.tags := getCallerFilename env # tgs\<rparr>,
             w\<lparr>Logger_instance := Some (inst\<lparr>Logger.tags := getCallerFilename env # tgs\<rparr>)\<rparr>)"
    if "checkLoglevel (Logger.level inst) = Inr ()"
      and "\<forall>h \<in> set (Logger.destinations inst). instanceofWritable (streams w h)"
    using that by (simp add: Logger_new_getOptions)
  show ?thesis
    unfolding from_args from_file using cloned returns by blast
qed

theorem later_creation_clones_instance_witness:
  "createFromArguments example_env (logFunctions_map example_env)
     \<lparr>LoggerOptions.level = Some ''DEBUG'',
      LoggerOptions.destinations = Some [DestString ''app.log''],
      LoggerOptions.logFunction = None\<rparr> [''db''] example_world
   = Inr (example_logger ''WARN'' [''app.js'', ''db''],
          example_world\<lparr>Logger_instance := Some (example_logger ''WARN'' [''app.js'', ''db''])\<rparr>)"
  using later_creation_clones_instance [where w = example_world
      and inst = "example_logger ''WARN'' [''main.js'']" and env = example_env
      and registry = "logFunctions_map example_env" and tgs = "[''db'']"
      and options = "\<lparr>LoggerOptions.level = Some ''DEBUG'',
                       LoggerOptions.destinations = Some [DestString ''app.log''],
                       LoggerOptions.logFunction = None\<rparr>",
      THEN conjunct2, THEN conjunct2, THEN conjunct2]
  by (simp add: example_world_def example_logger_def example_store_def checkLoglevel_def
      indexOf_logLevelNames)

subsection \<open>The first argument of \<open>log\<close> and \<open>log2\<close>\<close>

lemma levelArgument_token [simp]: "levelArgument (JString (token a)) = Some (token a)"
  by (simp add: levelArgument_def indexOf_logLevelNames)

lemma levelArgument_None:
  "(\<forall>a. arg1 \<noteq> JString (token a)) \<Longrightarrow> levelArgument arg1 = None"
  by (auto simp: levelArgument_def indexOf_logLevelNames split: jsval.splits option.splits
      dest: level_of_Some)

lemma example_util_format:
  "util_format example_env f ps = join '' '' (map example_render (f # ps))"
  by (simp add: example_env_def)

lemma token_not_lowercase: "''error'' \<noteq> token a"
  by (cases a) simp_all

lemma doLog_message_eq:
  "doLog_message env thisTags lvl tgs format ps =
     \<lparr>isoDate = now env, Message.level = lvl,
      Message.tags = concat_value (map JString thisTags) tgs,
      text = util_format env format ps,
      stack = (case format of JError _ st \<Rightarrow> st | _ \<Rightarrow> None)\<rparr>"
  by (cases ps) (simp_all add: doLog_message_def)

text \<open>
  C10 (as the code has it). On a logger with a valid level: \<open>log\<close> and \<open>log2\<close> take a first
  argument that is a string equal to one of the five level names as the level, also when no
  format follows; the message then carries that level and the text \<open>util.format(undefined)\<close>.
  Any other first argument makes an \<open>INFO\<close> message, whatever arguments follow: for \<open>log\<close> it
  is the format, for \<open>log2\<close> it is the tags argument and the second argument is the format;
  the argument after the format is dropped from the format arguments when it is \<open>undefined\<close>.
\<close>

theorem level_name_as_first_argument:
  assumes "level_of (toUpperCase (Logger.level this)) = Some l"
  shows "log env this (JString (token a)) JUndefined [] s =
           Inr (Logger.logFunction this
                  \<lparr>isoDate = now env, Message.level = token a,
                   Message.tags = map JString (Logger.tags this),
                   text = util_format env JUndefined [], stack = None\<rparr>
                  (position l \<ge> position a) (Logger.destinations this) s)
       \<and> log2 env this (JString (token a)) tgs JUndefined [] s =
           Inr (Logger.logFunction this
                  \<lparr>isoDate = now env, Message.level = token a,
                   Message.tags = concat_value (map JString (Logger.tags this)) tgs,
                   text = util_format env JUndefined [], stack = None\<rparr>
                  (position l \<ge> position a \<or> JString ''always'' \<in> set (concat_value [] tgs))
                  (Logger.destinations this) s)
       \<and> log env this (JString (token a)) arg2 arg3 s =
           Inr (Logger.logFunction this
                  \<lparr>isoDate = now env, Message.level = token a,
                   Message.tags = map JString (Logger.tags this),
                   text = util_format env arg2 arg3,
                   stack = (case arg2 of JError _ st \<Rightarrow> st | _ \<Rightarrow> None)\<rparr>
                  (position l \<ge> position a) (Logger.destinations this) s)
       \<and> log2 env this (JString (token a)) tgs format rest s =
           Inr (Logger.logFunction this
                  \<lparr>isoDate = now env, Message.level = token a,
                   Message.tags = concat_value (map JString (Logger.tags this)) tgs,
                   text = util_format env format rest,
                   stack = (case format of JError _ st \<Rightarrow> st | _ \<Rightarrow> None)\<rparr>
                  (position l \<ge> position a \<or> JString ''always'' \<in> set (concat_value [] tgs))
                  (Logger.destinations this) s)
       \<and> log env this (JString (token a)) arg2 arg3 s
           = doLog env this (token a) (JStrings []) arg2 arg3 s
       \<and> log2 env this (JString (token a)) tgs format rest s
           = doLog env this (token a) tgs format rest s
       \<and> ((\<forall>a. arg1 \<noteq> JString (token a)) \<longrightarrow>
            log env this arg1 arg2 arg3 s =
              Inr (Logger.logFunction this
                     \<lparr>isoDate = now env, Message.level = ''INFO'',
                      Message.tags = map JString (Logger.tags this),
                      text = util_format env arg1
                               (if arg2 \<noteq> JUndefined then arg2 # arg3 else arg3),
                      stack = (case arg1 of JError _ st \<Rightarrow> st | _ \<Rightarrow> None)\<rparr>
                     (position l \<ge> position INFO) (Logger.destinations this) s)
            \<and> log2 env this arg1 arg2 next_arg rest s =
              Inr (Logger.logFunction this
                     \<lparr>isoDate = now env, Message.level = ''INFO'',
                      Message.tags = concat_value (map JString (Logger.tags this)) arg1,
                      text = util_format env arg2
                               (if next_arg \<noteq> JUndefined then next_arg # rest else rest),
                      stack = (case arg2 of JError _ st \<Rightarrow> st | _ \<Rightarrow> None)\<rparr>
                     (position l \<ge> position INFO
                        \<or> JString ''always'' \<in> set (concat_value [] arg1))
                     (Logger.destinations this) s))"
proof -
  have with_level: "log env this (JString (token a)) x xs s =
      Inr (Logger.logFunction this
             \<lparr>isoDate = now env, Message.level = token a,
              Message.tags = map JString (Logger.tags this),
              text = util_format env x xs,
              stack = (case x of JError _ st \<Rightarrow> st | _ \<Rightarrow> None)\<rparr>
             (position l \<ge> position a) (Logger.destinations this) s)" for x xs
    using assms
    by (simp add: log_def doLog_def doLog_shouldBeLogged_positions doLog_message_eq
        concat_value_def)
  have with_level2: "log2 env this (JString (token a)) tgs x xs s =
      Inr (Logger.logFunction this
             \<lparr>isoDate = now env, Message.level = token a,
              Message.tags = concat_value (map JString (Logger.tags this)) tgs,
              text = util_format env x xs,
              stack = (case x of JError _ st \<Rightarrow> st | _ \<Rightarrow> None)\<rparr>
             (position l \<ge> position a \<or> JString ''always'' \<in> set (concat_value [] tgs))
             (Logger.destinations this) s)" for x xs
    using assms
    by (simp add: log2_def doLog_def doLog_shouldBeLogged_positions doLog_message_eq)
  have other: "log env this arg1 arg2 arg3 s =
      Inr (Logger.logFunction this
             \<lparr>isoDate = now env, Message.level = ''INFO'',
              Message.tags = map JString (Logger.tags this),
              text = util_format env arg1 (if arg2 \<noteq> JUndefined then arg2 # arg3 else arg3),
              stack = (case arg1 of JError _ st \<Rightarrow> st | _ \<Rightarrow> None)\<rparr>
             (position l \<ge> position INFO) (Logger.destinations this) s)"
    if "\<forall>a. arg1 \<noteq> JString (token a)"
    using assms levelArgument_None [OF that]
    by (simp add: log_def doLog_def doLog_shouldBeLogged_positions doLog_message_eq
        concat_value_def LogLevel_INFO_def)
  have other2: "log2 env this arg1 arg2 next_arg rest s =
      Inr (Logger.logFunction this
             \<lparr>isoDate = now env, Message.level = ''INFO'',
              Message.tags = concat_value (map JString (Logger.tags this)) arg1,
              text = util_format env arg2
                       (if next_arg \<noteq> JUndefined then next_arg # rest else rest),
              stack = (case arg2 of JError _ st \<Rightarrow> st | _ \<Rightarrow> None)\<rparr>
             (position l \<ge> position INFO \<or> JString ''always'' \<in> set (concat_value [] arg1))
             (Logger.destinations this) s)"
    if "\<forall>a. arg1 \<noteq> JString (token a)"
    using assms levelArgument_None [OF that]
    by (simp add: log2_def doLog_def doLog_shouldBeLogged_positions doLog_message_eq
        LogLevel_INFO_def)
  have calls: "log env this (JString (token a)) arg2 arg3 s
        = doLog env this (token a) (JStrings []) arg2 arg3 s"
      "log2 env this (JString (token a)) tgs format rest s
        = doLog env this (token a) tgs format rest s"
    by (simp_all add: log_def log2_def)
  show ?thesis
    using with_level [of JUndefined "[]"] with_level2 [of JUndefined "[]"]
      with_level [of arg2 arg3] with_level2 [of format rest] calls other other2
    by (intro conjI impI) simp_all
qed

theorem level_name_as_first_argument_witness:
  "contents [process_stdout, process_stderr]
     (log example_env (example_logger ''DEBUG'' []) (JString ''ERROR'') JUndefined []
        example_store)
   = Inr (Resolved,
       [[JSON_stringify \<lparr>isoDate = ''2016-05-01T15:35:19.997Z'', Message.level = ''ERROR'',
           Message.tags = [], text = ''undefined'', stack = None\<rparr> @ [CHR 0x0A]],
        [JSON_stringify \<lparr>isoDate = ''2016-05-01T15:35:19.997Z'', Message.level = ''ERROR'',
           Message.tags = [], text = ''undefined'', stack = None\<rparr> @ [CHR 0x0A]]])
   \<and> contents [process_stdout, process_stderr]
     (log example_env (example_logger ''DEBUG'' []) (JString ''error'') JUndefined []
        example_store)
   = Inr (Resolved,
       [[JSON_stringify \<lparr>isoDate = ''2016-05-01T15:35:19.997Z'', Message.level = ''INFO'',
           Message.tags = [], text = ''error'', stack = None\<rparr> @ [CHR 0x0A]],
        []])
   \<and> contents [process_stdout, process_stderr]
     (log2 example_env (example_logger ''DEBUG'' []) (JStrings [''db'']) (JString ''took'')
        (JString ''long'') [JString ''again''] example_store)
   = Inr (Resolved,
       [[JSON_stringify \<lparr>isoDate = ''2016-05-01T15:35:19.997Z'', Message.level = ''INFO'',
           Message.tags = [JString ''db''], text = ''took long again'', stack = None\<rparr>
           @ [CHR 0x0A]],
        []])"
proof -
  note at_example = level_name_as_first_argument [where this = "example_logger ''DEBUG'' []"
      and l = DEBUG and env = example_env and a = ERROR and s = example_store
      and ?arg1.0 = "JString ''error''" and ?arg2.0 = JUndefined and ?arg3.0 = "[]"]
  note at_tags = level_name_as_first_argument [where this = "example_logger ''DEBUG'' []"
      and l = DEBUG and env = example_env and s = example_store
      and ?arg1.0 = "JStrings [''db'']" and ?arg2.0 = "JString ''took''"
      and next_arg = "JString ''long''" and rest = "[JString ''again'']"]
  have level_name: "log example_env (example_logger ''DEBUG'' []) (JString ''ERROR'') JUndefined []
      example_store
    = Inr (allDest0WarnDest1 example_env
        \<lparr>isoDate = ''2016-05-01T15:35:19.997Z'', Message.level = ''ERROR'', Message.tags = [],
         text = ''undefined'', stack = None\<rparr> True [process_stdout, process_stderr]
        example_store)"
    using at_example [THEN conjunct1]
    by (simp add: example_logger_def example_util_format example_render_def)
  have other: "log example_env (example_logger ''DEBUG'' []) (JString ''error'') JUndefined []
      example_store
    = Inr (allDest0WarnDest1 example_env
        \<lparr>isoDate = ''2016-05-01T15:35:19.997Z'', Message.level = ''INFO'', Message.tags = [],
         text = ''error'', stack = None\<rparr> True [process_stdout, process_stderr]
        example_store)"
    using at_example [THEN conjunct2, THEN conjunct2, THEN conjunct2, THEN conjunct2,
        THEN conjunct2, THEN conjunct2, THEN mp, THEN conjunct1]
      token_not_lowercase
    by (simp add: example_logger_def example_util_format example_render_def)
  have tagged: "log2 example_env (example_logger ''DEBUG'' []) (JStrings [''db''])
      (JString ''took'') (JString ''long'') [JString ''again''] example_store
    = Inr (allDest0WarnDest1 example_env
        \<lparr>isoDate = ''2016-05-01T15:35:19.997Z'', Message.level = ''INFO'',
         Message.tags = [JString ''db''], text = ''took long again'', stack = None\<rparr> True
        [process_stdout, process_stderr] example_store)"
    using at_tags [THEN conjunct2, THEN conjunct2, THEN conjunct2, THEN conjunct2,
        THEN conjunct2, THEN conjunct2, THEN mp, THEN conjunct2]
    by (simp add: example_logger_def example_util_format example_render_def concat_value_def)
  show ?thesis
    unfolding level_name other tagged
    by (simp add: contents_def allDest0WarnDest1_both allDest0WarnDest1_primary_only isTty_def
        example_store_def process_stdout_def process_stderr_def stream_write_def)
qed

text \<open>
  C10 (as the specification words it) fails for \<open>log2\<close>: in \<open>log2("error", "fmt")\<close> the first
  argument is no level name, and it becomes a tag of the \<open>INFO\<close> message, whose text is
  formatted from the second argument.
\<close>

theorem log2_first_argument_is_tags:
  "contents [process_stdout, process_stderr]
     (log2 example_env (example_logger ''DEBUG'' []) (JString ''error'') (JString ''fmt'')
        JUndefined [] example_store)
   = Inr (Resolved,
       [[JSON_stringify \<lparr>isoDate = ''2016-05-01T15:35:19.997Z'', Message.level = ''INFO'',
           Message.tags = [JString ''error''], text = ''fmt'', stack = None\<rparr> @ [CHR 0x0A]],
        []])"
proof -
  have "levelArgument (JString ''error'') = None"
    by (simp add: levelArgument_def indexOf_logLevelNames level_of_def)
  moreover have "doLog_message example_env [] ''INFO'' (JString ''error'') (JString ''fmt'') []
      = \<lparr>isoDate = ''2016-05-01T15:35:19.997Z'', Message.level = ''INFO'',
         Message.tags = [JString ''error''], text = ''fmt'', stack = None\<rparr>"
    by (simp add: doLog_message_def concat_value_def example_env_def example_render_def)
  ultimately show ?thesis
    by (simp add: log2_def doLog_def doLog_shouldBeLogged_positions LogLevel_INFO_def
        concat_value_def example_logger_def contents_def allDest0WarnDest1_primary_only
        example_store_def process_stdout_def process_stderr_def stream_write_def)
qed

subsection \<open>Reading a JSON line back\<close>

lemma unhex_nth: "\<forall>m<16. unhex (''0123456789abcdef'' ! m) = Some m"
  unfolding unhex_def by code_simp

lemma unhex_hexDigit: "unhex (hexDigit k) = Some (k mod 16)"
  using unhex_nth by (simp add: hexDigit_def)

lemma unicode_escape_control:
  assumes "(of_char c :: nat) < 32"
  shows "unicode_escape (CHR ''0'') (CHR ''0'') (hexDigit ((of_char c :: nat) div 16))
           (hexDigit (of_char c)) = Some c"
proof -
  have zero: "unhex (CHR ''0'') = Some 0"
    by (simp add: unhex_def)
  have "((of_char c :: nat) div 16) mod 16 * 16 + of_char c mod 16 = of_char c"
    using assms by simp
  then show ?thesis
    using assms by (simp add: unicode_escape_def unhex_hexDigit zero)
qed

lemma parse_string_body_quote [simp]: "parse_string_body (CHR 0x22 # rest) = Some ([], rest)"
  by (cases rest) simp_all

lemma parse_string_body_quoteChar:
  assumes "t \<noteq> []"
  shows "parse_string_body (quoteChar c @ t) = map_option (apfst ((#) c)) (parse_string_body t)"
proof -
  obtain e cs where t: "t = e # cs"
    using assms by (cases t) auto
  show ?thesis
  proof (cases "c = CHR 0x22 \<or> c = CHR 0x5C \<or> c = CHR 0x08 \<or> c = CHR 0x0C \<or> c = CHR 0x0A
      \<or> c = CHR 0x0D \<or> c = CHR 0x09")
    case True
    then show ?thesis
      by (elim disjE) (simp_all add: quoteChar_def unescape_def)
  next
    case False
    show ?thesis
    proof (cases "(of_char c :: nat) < 32")
      case True
      with False show ?thesis
        by (simp add: quoteChar_def unicode_escape_control)
    next
      case False
      with \<open>\<not> (c = CHR 0x22 \<or> _)\<close> show ?thesis
        by (simp add: quoteChar_def t)
    qed
  qed
qed

lemma parse_string_body_quoted:
  "parse_string_body (concat (map quoteChar s) @ CHR 0x22 # rest) = Some (s, rest)"
  by (induction s) (simp_all add: parse_string_body_quoteChar)

lemma JSON_quote_parse:
  "JSON_quote s @ rest = CHR 0x22 # concat (map quoteChar s) @ CHR 0x22 # rest"
  by (simp add: JSON_quote_def)

lemma skip_ws_Cons [simp]: "\<not> is_ws c \<Longrightarrow> skip_ws (c # cs) = c # cs"
  by (simp add: skip_ws_def)

lemma is_ws_punctuation [simp]:
  "\<not> is_ws (CHR 0x22)" "\<not> is_ws (CHR ''['')" "\<not> is_ws (CHR '']'')" "\<not> is_ws (CHR ''{'')"
  "\<not> is_ws (CHR ''}'')" "\<not> is_ws (CHR '','')" "\<not> is_ws (CHR '':'')" "\<not> is_ws (CHR ''n'')"
  by (simp_all add: is_ws_def)

lemma JSON_text_starts:
  "\<exists>c cs. JSON_text j = c # cs \<and> \<not> is_ws c \<and> c \<noteq> CHR '']'' \<and> c \<noteq> CHR ''}''"
  by (cases j) (simp_all add: JSON_quote_def)

lemma parse_quoted [simp]:
  "parse_string_body (concat (map quoteChar s) @ CHR 0x22 # rest) = Some (s, rest)"
  by (rule parse_string_body_quoted)

lemma parse_elements_text:
  assumes each: "\<And>x n rest. x \<in> set xs \<Longrightarrow> fuel_of x \<le> n \<Longrightarrow>
      parse_value n (JSON_text x @ rest) = Some (x, rest)"
    and "xs \<noteq> []" and "length xs + sum_list (map fuel_of xs) \<le> n"
  shows "parse_elements n (join '','' (map JSON_text xs) @ CHR '']'' # rest) = Some (xs, rest)"
  using assms
proof (induction xs arbitrary: n)
  case Nil
  then show ?case by simp
next
  case (Cons x xs)
  note IH = Cons.IH and each = Cons.prems(1) and fuel = Cons.prems(3)
  obtain m where n: "n = Suc m"
    using fuel by (cases n) auto
  have x: "parse_value m (JSON_text x @ r) = Some (x, r)" for r
    using each [of x m r] fuel n by simp
  show ?case
  proof (cases xs)
    case Nil
    then show ?thesis
      using x by (simp add: n)
  next
    case (Cons y ys)
    have "parse_elements m (join '','' (map JSON_text xs) @ CHR '']'' # rest) = Some (xs, rest)"
    proof (rule IH)
      show "parse_value n' (JSON_text z @ r) = Some (z, r)"
        if "z \<in> set xs" "fuel_of z \<le> n'" for z n' r
        using that each [of z n' r] by simp
      show "xs \<noteq> []"
        using Cons by simp
      show "length xs + sum_list (map fuel_of xs) \<le> m"
        using fuel n by simp
    qed
    then show ?thesis
      using x [of "CHR '','' # join '','' (map JSON_text xs) @ CHR '']'' # rest"] Cons
      by (simp add: n)
  qed
qed

lemma parse_members_text:
  assumes each: "\<And>k x n rest. (k, x) \<in> set ms \<Longrightarrow> fuel_of x \<le> n \<Longrightarrow>
      parse_value n (JSON_text x @ rest) = Some (x, rest)"
    and "ms \<noteq> []" and "length ms + sum_list (map (\<lambda>m. fuel_of (snd m)) ms) \<le> n"
  shows "parse_members n
           (join '','' (map (\<lambda>m. JSON_quote (fst m) @ '':'' @ JSON_text (snd m)) ms)
              @ CHR ''}'' # rest) = Some (ms, rest)"
  using assms
proof (induction ms arbitrary: n)
  case Nil
  then show ?case by simp
next
  case (Cons kv ms)
  note IH = Cons.IH and each = Cons.prems(1) and fuel = Cons.prems(3)
  obtain k x where kv: "kv = (k, x)"
    by (cases kv)
  obtain m where n: "n = Suc m"
    using fuel by (cases n) auto
  have x: "parse_value m (JSON_text x @ r) = Some (x, r)" for r
    using each [of k x m r] fuel n kv by simp
  show ?case
  proof (cases ms)
    case Nil
    then show ?thesis
      using x by (simp add: n kv JSON_quote_def)
  next
    case (Cons y ys)
    have "parse_members m
        (join '','' (map (\<lambda>m. JSON_quote (fst m) @ '':'' @ JSON_text (snd m)) ms)
           @ CHR ''}'' # rest) = Some (ms, rest)"
    proof (rule IH)
      show "parse_value n' (JSON_text z @ r) = Some (z, r)"
        if "(k', z) \<in> set ms" "fuel_of z \<le> n'" for k' z n' r
        using that each [of k' z n' r] by simp
      show "ms \<noteq> []"
        using Cons by simp
      show "length ms + sum_list (map (\<lambda>m. fuel_of (snd m)) ms) \<le> m"
        using fuel n by simp
    qed
    then show ?thesis
      using x [of "CHR '','' # join '','' (map (\<lambda>m. JSON_quote (fst m) @ '':''
          @ JSON_text (snd m)) ms) @ CHR ''}'' # rest"] Cons
      by (simp add: n kv JSON_quote_def)
  qed
qed

lemma parse_value_text:
  "fuel_of j \<le> n \<Longrightarrow> parse_value n (JSON_text j @ rest) = Some (j, rest)"
proof (induction j arbitrary: n rest)
  case JNull
  then obtain m where "n = Suc m" by (cases n) auto
  then show ?case by (simp add: is_ws_def skip_ws_def)
next
  case (JStr s)
  then obtain m where "n = Suc m" by (cases n) auto
  then show ?case by (simp add: JSON_quote_def)
next
  case (JArr xs)
  then obtain m where n: "n = Suc m" by (cases n) auto
  show ?case
  proof (cases xs)
    case Nil
    then show ?thesis by (simp add: n)
  next
    case (Cons y ys)
    obtain c cs where first: "JSON_text y = c # cs" "\<not> is_ws c" "c \<noteq> CHR '']''"
      using JSON_text_starts [of y] by blast
    have "parse_elements m (join '','' (map JSON_text xs) @ CHR '']'' # rest) = Some (xs, rest)"
      using JArr n Cons by (intro parse_elements_text) auto
    moreover have "\<exists>t. join '','' (map JSON_text xs) @ CHR '']'' # rest = c # t"
      using Cons first by (cases ys) simp_all
    ultimately show ?thesis
      using first by (auto simp: n)
  qed
next
  case (JObj ms)
  then obtain m where n: "n = Suc m" by (cases n) auto
  show ?case
  proof (cases ms)
    case Nil
    then show ?thesis by (simp add: n)
  next
    case (Cons y ys)
    have "parse_members m
        (join '','' (map (\<lambda>m. JSON_quote (fst m) @ '':'' @ JSON_text (snd m)) ms)
           @ CHR ''}'' # rest) = Some (ms, rest)"
    proof (intro parse_members_text)
      fix k x n' r
      assume "(k, x) \<in> set ms" and "fuel_of x \<le> n'"
      then show "parse_value n' (JSON_text x @ r) = Some (x, r)"
        using JObj.IH [of "(k, x)" x n' r] by simp
    next
      show "ms \<noteq> []" using Cons by simp
    next
      show "length ms + sum_list (map (\<lambda>m. fuel_of (snd m)) ms) \<le> m"
        using JObj.prems n by simp
    qed
    moreover have "\<exists>t. join '','' (map (\<lambda>m. JSON_quote (fst m) @ '':'' @ JSON_text (snd m)) ms)
        @ CHR ''}'' # rest = CHR 0x22 # t"
      using Cons by (cases ys) (simp_all add: JSON_quote_def)
    ultimately show ?thesis
      by (auto simp: n)
  qed
qed

lemma length_join_comma:
  "ys \<noteq> [] \<Longrightarrow> Suc (length (join '','' ys)) = sum_list (map length ys) + length ys"
  by (induction "'',''" ys rule: join.induct) simp_all

lemma fuel_of_le_length: "fuel_of j \<le> length (JSON_text j)"
proof (induction j)
  case JNull
  show ?case by simp
next
  case (JStr s)
  show ?case by (simp add: JSON_quote_def)
next
  case (JArr xs)
  show ?case
  proof (cases "xs = []")
    case True
    then show ?thesis by simp
  next
    case False
    have "sum_list (map fuel_of xs) \<le> sum_list (map (length \<circ> JSON_text) xs)"
      using JArr by (intro sum_list_mono) simp
    then show ?thesis
      using False length_join_comma [of "map JSON_text xs"] by simp
  qed
next
  case (JObj ms)
  show ?case
  proof (cases "ms = []")
    case True
    then show ?thesis by simp
  next
    case False
    have "sum_list (map (\<lambda>m. fuel_of (snd m)) ms)
        \<le> sum_list (map (\<lambda>m. length (JSON_quote (fst m) @ '':'' @ JSON_text (snd m))) ms)"
    proof (intro sum_list_mono)
      fix m assume m: "m \<in> set ms"
      have "snd m \<in> Basic_BNFs.snds m"
        by (cases m) simp
      with m have "fuel_of (snd m) \<le> length (JSON_text (snd m))"
        by (rule JObj)
      then show "fuel_of (snd m) \<le> length (JSON_quote (fst m) @ '':'' @ JSON_text (snd m))"
        by simp
    qed
    then show ?thesis
      using False
        length_join_comma [of "map (\<lambda>m. JSON_quote (fst m) @ '':'' @ JSON_text (snd m)) ms"]
      by (simp add: comp_def)
  qed
qed

lemma JSON_parse_text:
  assumes "skip_ws ws = []"
  shows "JSON_parse (JSON_text j @ ws) = Inr j"
proof -
  have "fuel_of j \<le> length (JSON_text j @ ws)"
    using fuel_of_le_length [of j] by simp
  then have "parse_value (length (JSON_text j @ ws)) (JSON_text j @ ws) = Some (j, ws)"
    by (rule parse_value_text)
  then show ?thesis
    using assms by (simp add: JSON_parse_def)
qed

lemma JSON_stringify_value_text: "JSON_stringify_value = (\<lambda>v. JSON_text (json_of_value v))"
proof
  fix v show "JSON_stringify_value v = JSON_text (json_of_value v)"
    by (cases v) (simp_all add: JSON_stringify_value_def json_of_value_def comp_def)
qed

lemma JSON_stringify_text: "JSON_stringify message = JSON_text (json_of_message message)"
  by (cases "stack message")
    (simp_all add: JSON_stringify_def json_of_message_def JSON_stringify_value_text comp_def)

lemma concat_value_append: "concat_value xs v = xs @ concat_value [] v"
  by (cases v) (simp_all add: concat_value_def)

lemma property_level [simp]:
  "property (json_of_message message) ''level'' = Some (JStr (Message.level message))"
  by (cases "stack message") (simp_all add: property_def json_of_message_def)

lemma property_tags [simp]:
  "property (json_of_message message) ''tags''
     = Some (JArr (map json_of_value (Message.tags message)))"
  by (cases "stack message") (simp_all add: property_def json_of_message_def)

lemma doLog_message_tags:
  "concat_value [] tgs = map JString callTags \<Longrightarrow>
     map json_of_value (Message.tags (doLog_message env thisTags lvl tgs format ps))
       = map JStr (thisTags @ callTags)"
  by (simp add: doLog_message_def Let_def concat_value_append [of "map JString thisTags"]
      json_of_value_def comp_def)

text \<open>
  C8. Let the tags of the call be a string or an array of strings, and the line end of the
  platform white space. Then the JSON line of the message that \<open>doLog\<close> builds parses; the
  record read back has the level of the call as its \<open>level\<close> and, as its \<open>tags\<close>, the tags of
  the logger followed by the tags of the call, in order and with duplicates. When the message
  is to be logged, this line is what \<open>allDest0WarnDest1\<close> (and \<open>defaultJson\<close> in the other
  variant) writes to one of the first two destinations.
\<close>

theorem json_line_round_trip:
  assumes "skip_ws (EOL env) = []" and "concat_value [] tgs = map JString callTags"
  shows "JSON_parse (JSON_stringify (doLog_message env thisTags lvl tgs format ps) @ EOL env)
           = Inr (json_of_message (doLog_message env thisTags lvl tgs format ps))
       \<and> property (json_of_message (doLog_message env thisTags lvl tgs format ps)) ''level''
           = Some (JStr lvl)
       \<and> property (json_of_message (doLog_message env thisTags lvl tgs format ps)) ''tags''
           = Some (JArr (map JStr (thisTags @ callTags)))
       \<and> (level_of lvl = Some b \<and> Logger.tags this = thisTags
            \<and> doLog_shouldBeLogged (Logger.level this) lvl tgs = Inr True
            \<and> Logger.logFunction this = allDest0WarnDest1 env
            \<and> Logger.destinations this = d0 # ds \<longrightarrow>
            (\<exists>s'. doLog env this lvl tgs format ps s = Inr (Resolved, s')
               \<and> (\<exists>h \<in> set (take 2 (d0 # ds)). received s s' h
                     (JSON_stringify (doLog_message env thisTags lvl tgs format ps) @ EOL env))))
       \<and> (level_of lvl = Some b \<and> Logger_fns.tags this' = thisTags
            \<and> doLog_shouldBeLogged (Logger_fns.level this') lvl tgs = Inr True
            \<and> Logger_fns.logFunctions this' = [defaultJson env]
            \<and> Logger_fns.destinations this' = d0 # ds \<and> (ds \<noteq> [] \<or> isTTY (s d0) = None) \<longrightarrow>
            (\<exists>s'. doLog_fns env this' lvl tgs format ps s = Inr (Resolved, s')
               \<and> (\<exists>h \<in> set (take 2 (d0 # ds)). received s s' h
                     (JSON_stringify (doLog_message env thisTags lvl tgs format ps) @ EOL env))))"
proof (intro conjI impI)
  show "JSON_parse (JSON_stringify (doLog_message env thisTags lvl tgs format ps) @ EOL env)
      = Inr (json_of_message (doLog_message env thisTags lvl tgs format ps))"
    using assms(1) by (simp add: JSON_stringify_text JSON_parse_text)
  show "property (json_of_message (doLog_message env thisTags lvl tgs format ps)) ''level''
      = Some (JStr lvl)"
    by simp
  show "property (json_of_message (doLog_message env thisTags lvl tgs format ps)) ''tags''
      = Some (JArr (map JStr (thisTags @ callTags)))"
    using assms(2) by (simp add: doLog_message_tags)
next
  assume *: "level_of lvl = Some b \<and> Logger.tags this = thisTags
      \<and> doLog_shouldBeLogged (Logger.level this) lvl tgs = Inr True
      \<and> Logger.logFunction this = allDest0WarnDest1 env
      \<and> Logger.destinations this = d0 # ds"
  then have "level_of (toUpperCase lvl) = Some b"
    by (simp add: toUpperCase_level_of)
  then show "\<exists>s'. doLog env this lvl tgs format ps s = Inr (Resolved, s')
      \<and> (\<exists>h \<in> set (take 2 (d0 # ds)). received s s' h
            (JSON_stringify (doLog_message env thisTags lvl tgs format ps) @ EOL env))"
    using * allDest0WarnDest1_writes [of "doLog_message env thisTags lvl tgs format ps" b
        env d0 ds s]
    by (simp add: doLog_def)
next
  assume *: "level_of lvl = Some b \<and> Logger_fns.tags this' = thisTags
      \<and> doLog_shouldBeLogged (Logger_fns.level this') lvl tgs = Inr True
      \<and> Logger_fns.logFunctions this' = [defaultJson env]
      \<and> Logger_fns.destinations this' = d0 # ds \<and> (ds \<noteq> [] \<or> isTTY (s d0) = None)"
  then have "level_of (toUpperCase lvl) = Some b" and "ds \<noteq> [] \<or> isTTY (s d0) = None"
    by (simp_all add: toUpperCase_level_of)
  then obtain s' where "writeToDefaultDestination
        (JSON_stringify (doLog_message env thisTags lvl tgs format ps) @ EOL env) lvl True
        (d0 # ds) s = (Resolved, s')"
    and "\<exists>h \<in> set (take 2 (d0 # ds)). received s s' h
        (JSON_stringify (doLog_message env thisTags lvl tgs format ps) @ EOL env)"
    using writeToDefaultDestination_writes [of lvl b ds s d0] by blast
  then show "\<exists>s'. doLog_fns env this' lvl tgs format ps s = Inr (Resolved, s')
      \<and> (\<exists>h \<in> set (take 2 (d0 # ds)). received s s' h
            (JSON_stringify (doLog_message env thisTags lvl tgs format ps) @ EOL env))"
    using * by (simp add: doLog_fns_def defaultJson_def defaultJson_messageText_def)
qed

theorem json_line_round_trip_witness:
  "JSON_parse (JSON_stringify (doLog_message example_env [''app.js'', ''db''] ''WARN''
       (JStrings [''db'', ''slow'']) (JString ''took long'') []) @ EOL example_env)
     = Inr (json_of_message (doLog_message example_env [''app.js'', ''db''] ''WARN''
         (JStrings [''db'', ''slow'']) (JString ''took long'') []))
   \<and> property (json_of_message (doLog_message example_env [''app.js'', ''db''] ''WARN''
         (JStrings [''db'', ''slow'']) (JString ''took long'') [])) ''level''
     = Some (JStr ''WARN'')
   \<and> property (json_of_message (doLog_message example_env [''app.js'', ''db''] ''WARN''
         (JStrings [''db'', ''slow'']) (JString ''took long'') [])) ''tags''
     = Some (JArr [JStr ''app.js'', JStr ''db'', JStr ''db'', JStr ''slow''])"
  using json_line_round_trip [where env = example_env and tgs = "JStrings [''db'', ''slow'']"
      and callTags = "[''db'', ''slow'']" and thisTags = "[''app.js'', ''db'']"
      and lvl = "''WARN''" and format = "JString ''took long''" and ps = "[]"]
  by (simp add: concat_value_def skip_ws_def is_ws_def)

end
